theory Spec2Isabelle
  imports Main "HOL-Library.DAList" "HOL-Library.Multiset"
begin

section \<open>Values and strings of the host language\<close>

text \<open>
  The reconciliation engine of the chain tracker lives in \<^verbatim>\<open>js/app.js\<close>: the text parser
  (\<^verbatim>\<open>extractMemberIdAndName\<close>, \<^verbatim>\<open>extractMemberName\<close>), the aggregator
  (\<^verbatim>\<open>extractConsumption\<close>), the merger (\<^verbatim>\<open>mergeConsumption\<close>, \<^verbatim>\<open>updateTotals\<close>), the
  paginator (\<^verbatim>\<open>fetchAllFactionNews\<close>) and the orchestrator (\<^verbatim>\<open>loadAndSyncChain\<close>).

  Conventions of the embedding.
  \<^item> A JavaScript number is an \<open>int\<close> (epoch seconds, counts, amounts; arithmetic is exact).
  \<^item> An absent property (\<^verbatim>\<open>undefined\<close>) is \<open>None\<close>; \<^verbatim>\<open>a ?? b\<close> is \<open>nullish a b\<close>.
  \<^item> A string is a \<open>char list\<close> of code units below 256.
  \<^item> An object used as a dictionary is an association list with unique keys
    (\<open>('k, 'v) alist\<close>): \<open>DAList.lookup\<close> reads a property, \<open>DAList.update\<close> writes one,
    \<open>DAList.impl_of\<close> enumerates the entries, in some order without repetition.
    Properties inherited from \<^verbatim>\<open>Object.prototype\<close> are not modelled.
  \<^item> A \<^verbatim>\<open>Set\<close> is the list of its members in insertion order.
\<close>

datatype jsval = JNum int | JStr string

definition nullish :: "'a option \<Rightarrow> 'a option \<Rightarrow> 'a option" where
  "nullish a b = (case a of Some x \<Rightarrow> Some x | None \<Rightarrow> b)"

text \<open>
  \<^verbatim>\<open>a < b\<close> on numbers that may be \<^verbatim>\<open>undefined\<close> or \<^verbatim>\<open>NaN\<close> (both \<open>None\<close>): false
  as soon as one side is not a number.
\<close>

definition js_lt :: "int option \<Rightarrow> int option \<Rightarrow> bool" where
  "js_lt a b = (case a of None \<Rightarrow> False | Some x \<Rightarrow> (case b of None \<Rightarrow> False | Some y \<Rightarrow> x < y))"

subsection \<open>Characters\<close>

definition is_digit :: "char \<Rightarrow> bool" where
  "is_digit c = (c \<in> set ''0123456789'')"

text \<open>The white space of \<^verbatim>\<open>\s\<close> and \<^verbatim>\<open>trim\<close> among the code units below 256.\<close>

definition is_space :: "char \<Rightarrow> bool" where
  "is_space c = (c \<in> set [CHR 0x09, CHR 0x0A, CHR 0x0B, CHR 0x0C, CHR 0x0D, CHR 0x20, CHR 0xA0])"

definition lower :: "char \<Rightarrow> char" where
  "lower c = (case map_of (zip ''ABCDEFGHIJKLMNOPQRSTUVWXYZ'' ''abcdefghijklmnopqrstuvwxyz'') c of
                Some l \<Rightarrow> l | None \<Rightarrow> c)"

text \<open>A pattern character against an input character under the \<^verbatim>\<open>i\<close> flag.\<close>

definition ci_eq :: "char \<Rightarrow> char \<Rightarrow> bool" where
  "ci_eq p c = (lower p = lower c)"

definition digit_value :: "char \<Rightarrow> int" where
  "digit_value c = (case map_of (zip ''0123456789'' [0, 1, 2, 3, 4, 5, 6, 7, 8, 9]) c of
                      Some d \<Rightarrow> d | None \<Rightarrow> 0)"

text \<open>\<^verbatim>\<open>parseInt(ds, 10)\<close> on a string of decimal digits.\<close>

definition parseInt :: "string \<Rightarrow> int" where
  "parseInt ds = fold (\<lambda>c n. 10 * n + digit_value c) ds 0"

text \<open>\<^verbatim>\<open>String(n)\<close> for an integer.\<close>

fun string_of_nat :: "nat \<Rightarrow> string" where
  "string_of_nat n =
     (if n < 10 then [''0123456789'' ! n]
      else string_of_nat (n div 10) @ [''0123456789'' ! (n mod 10)])"

definition string_of_int :: "int \<Rightarrow> string" where
  "string_of_int i = (if i < 0 then CHR ''-'' # string_of_nat (nat (- i)) else string_of_nat (nat i))"

text \<open>\<^verbatim>\<open>String(v)\<close> and the interpolation \<^verbatim>\<open>${v}\<close> of a value that may be absent.\<close>

definition js_String :: "jsval option \<Rightarrow> string" where
  "js_String v = (case v of None \<Rightarrow> ''undefined'' | Some (JNum n) \<Rightarrow> string_of_int n | Some (JStr s) \<Rightarrow> s)"

subsection \<open>String operations\<close>

definition starts_with :: "string \<Rightarrow> string \<Rightarrow> bool" where
  "starts_with p s = (take (length p) s = p)"

text \<open>\<^verbatim>\<open>s.indexOf(p)\<close>: the first position where \<open>p\<close> occurs, or \<open>-1\<close>.\<close>

fun indexOf :: "string \<Rightarrow> string \<Rightarrow> int" where
  "indexOf p [] = (if p = [] then 0 else - 1)"
| "indexOf p (c # cs) =
     (if starts_with p (c # cs) then 0
      else (let r = indexOf p cs in if r < 0 then - 1 else r + 1))"

definition js_includes :: "string \<Rightarrow> string \<Rightarrow> bool" where
  "js_includes s p = (0 \<le> indexOf p s)"

definition trim :: "string \<Rightarrow> string" where
  "trim s = rev (dropWhile is_space (rev (dropWhile is_space s)))"

text \<open>
  \<^verbatim>\<open>s.replace(/<[^>]+>/g, r)\<close>: scanning from the left, a \<^verbatim>\<open><\<close> followed by at least one
  character other than \<^verbatim>\<open>></\<close> and then by \<^verbatim>\<open>></\<close> is replaced by \<open>r\<close>, and the scan resumes
  after it.
\<close>

function replace_tags :: "string \<Rightarrow> string \<Rightarrow> string" where
  "replace_tags r [] = []"
| "replace_tags r (c # cs) =
     (if c = CHR ''<'' \<and> takeWhile (\<lambda>d. d \<noteq> CHR ''>'') cs \<noteq> [] \<and> dropWhile (\<lambda>d. d \<noteq> CHR ''>'') cs \<noteq> []
      then r @ replace_tags r (tl (dropWhile (\<lambda>d. d \<noteq> CHR ''>'') cs))
      else c # replace_tags r cs)"
  by pat_completeness auto
termination
proof (relation "measure (\<lambda>(r, s). length s)")
  show "wf (measure (\<lambda>(r, s). length s))" by simp
next
  fix r :: string and c :: char and cs :: string
  have "length (dropWhile (\<lambda>d. d \<noteq> CHR ''>'') cs) \<le> length cs"
    by (rule length_dropWhile_le)
  then show "((r, tl (dropWhile (\<lambda>d. d \<noteq> CHR ''>'') cs)), (r, c # cs)) \<in> measure (\<lambda>(r, s). length s)"
    by simp
next
  fix r :: string and c :: char and cs :: string
  show "((r, cs), (r, c # cs)) \<in> measure (\<lambda>(r, s). length s)" by simp
qed

text \<open>
  \<^verbatim>\<open>s.split(/\s+/)\<close>: the pieces between the maximal runs of white space, the empty
  pieces at both ends included. \<open>cur\<close> is the piece being read, reversed.
\<close>

function split_ws :: "string \<Rightarrow> string \<Rightarrow> string list" where
  "split_ws cur [] = [rev cur]"
| "split_ws cur (c # cs) =
     (if is_space c then rev cur # split_ws [] (dropWhile is_space cs)
      else split_ws (c # cur) cs)"
  by pat_completeness auto
termination
proof (relation "measure (\<lambda>(cur, s). length s)")
  show "wf (measure (\<lambda>(cur, s). length s))" by simp
next
  fix cur :: string and c :: char and cs :: string
  have "length (dropWhile is_space cs) \<le> length cs"
    by (rule length_dropWhile_le)
  then show "(([], dropWhile is_space cs), (cur, c # cs)) \<in> measure (\<lambda>(cur, s). length s)"
    by simp
next
  fix cur :: string and c :: char and cs :: string
  show "((c # cur, cs), (cur, c # cs)) \<in> measure (\<lambda>(cur, s). length s)" by simp
qed

subsection \<open>The regular expressions\<close>

text \<open>A literal pattern under the \<^verbatim>\<open>i\<close> flag at the head of the input: the rest of the input.\<close>

fun ci_prefix :: "string \<Rightarrow> string \<Rightarrow> string option" where
  "ci_prefix [] s = Some s"
| "ci_prefix (p # ps) [] = None"
| "ci_prefix (p # ps) (c # cs) = (if ci_eq p c then ci_prefix ps cs else None)"

text \<open>
  \<^verbatim>\<open>/profiles\.php\?XID=(\d+)(?:[^>]*>([^<]*))?/i\<close> anchored at the head of the input:
  group 1 (the digits) and group 2 (the text between the next \<^verbatim>\<open>></\<close> and the following
  \<^verbatim>\<open><\<close>, absent when no \<^verbatim>\<open>></\<close> follows).
\<close>

definition profile_link_at :: "string \<Rightarrow> (string \<times> string option) option" where
  "profile_link_at s =
     (case ci_prefix ''profiles.php?XID='' s of
        None \<Rightarrow> None
      | Some r \<Rightarrow>
          (if takeWhile is_digit r = [] then None
           else Some (takeWhile is_digit r,
                  (case dropWhile (\<lambda>d. d \<noteq> CHR ''>'') (dropWhile is_digit r) of
                     [] \<Rightarrow> None
                   | g # t \<Rightarrow> Some (takeWhile (\<lambda>d. d \<noteq> CHR ''<'') t)))))"

text \<open>\<^verbatim>\<open>text.match(PROFILE_LINK_REGEX)\<close>: the leftmost match.\<close>

fun profile_link_match :: "string \<Rightarrow> (string \<times> string option) option" where
  "profile_link_match [] = None"
| "profile_link_match (c # cs) =
     (case profile_link_at (c # cs) of
        Some m \<Rightarrow> Some m
      | None \<Rightarrow> profile_link_match cs)"

text \<open>
  \<^verbatim>\<open>/used (\d+) faction points/gi\<close> anchored at the head of the input: group 1 and the
  input after the match.
\<close>

definition points_at :: "string \<Rightarrow> (string \<times> string) option" where
  "points_at s =
     (case ci_prefix ''used '' s of
        None \<Rightarrow> None
      | Some r \<Rightarrow>
          (if takeWhile is_digit r = [] then None
           else (case ci_prefix '' faction points'' (dropWhile is_digit r) of
                   None \<Rightarrow> None
                 | Some rest \<Rightarrow> Some (takeWhile is_digit r, rest))))"

lemma ci_prefix_length: "ci_prefix p s = Some r \<Longrightarrow> length r + length p = length s"
  by (induction p s rule: ci_prefix.induct) (auto split: if_splits)

lemma points_at_shorter: "points_at s = Some (ds, rest) \<Longrightarrow> length rest < length s"
proof -
  assume a: "points_at s = Some (ds, rest)"
  then obtain r where r: "ci_prefix ''used '' s = Some r"
    by (auto simp: points_at_def split: option.splits)
  with a have "ci_prefix '' faction points'' (dropWhile is_digit r) = Some rest"
    by (auto simp: points_at_def split: option.splits if_splits)
  then have "length rest \<le> length (dropWhile is_digit r)"
    using ci_prefix_length by fastforce
  also have "\<dots> \<le> length r" by (rule length_dropWhile_le)
  also have "\<dots> < length s" using ci_prefix_length [OF r] by simp
  finally show ?thesis .
qed

text \<open>
  The loop \<^verbatim>\<open>while ((match = regex.exec(text)) !== null)\<close>: group 1 of every match, from
  the left, each search starting where the previous match ended.
\<close>

function points_matches :: "string \<Rightarrow> string list" where
  "points_matches [] = []"
| "points_matches (c # cs) =
     (case points_at (c # cs) of
        Some (ds, rest) \<Rightarrow> ds # points_matches rest
      | None \<Rightarrow> points_matches cs)"
  by pat_completeness auto
termination
proof (relation "measure length")
  show "wf (measure length)" by simp
next
  fix c :: char and cs :: string and x2 :: "string \<times> string" and ds rest :: string
  assume "points_at (c # cs) = Some x2" and "(ds, rest) = x2"
  then have "points_at (c # cs) = Some (ds, rest)" by simp
  then show "(rest, c # cs) \<in> measure length"
    using points_at_shorter by fastforce
next
  fix c :: char and cs :: string
  show "(cs, c # cs) \<in> measure length" by simp
qed

section \<open>The event parser\<close>

definition XANAX_PHRASE :: string where
  "XANAX_PHRASE = ''used one of the faction's Xanax items''"

text \<open>
  \<^verbatim>\<open>extractMemberName\<close>: the text before the first \<^verbatim>\<open>" used "\<close> when that marker stands
  at a positive index, with the markup removed and trimmed; otherwise the first word
  of the text, and \<^verbatim>\<open>'Unknown'\<close> when there is none.
\<close>

definition extractMemberName :: "string \<Rightarrow> string" where
  "extractMemberName txt =
     (let usedIdx = indexOf '' used '' txt in
      if usedIdx > 0 then trim (replace_tags [] (take (nat usedIdx) txt))
      else (case filter (\<lambda>w. w \<noteq> []) (split_ws [] (replace_tags '' '' (trim txt))) of
              [] \<Rightarrow> ''Unknown''
            | w # ws \<Rightarrow> w))"

record member =
  member_id :: string
  member_name :: string

text \<open>
  \<^verbatim>\<open>extractMemberIdAndName\<close>: the id and name of a profile link when the text has one
  (the name falling back to \<^verbatim>\<open>extractMemberName\<close>), otherwise the extracted name as both
  id and name, and \<^verbatim>\<open>null\<close> (\<open>None\<close>) when that name is empty.
\<close>

definition extractMemberIdAndName :: "string \<Rightarrow> member option" where
  "extractMemberIdAndName txt =
     (case profile_link_match txt of
        Some (g1, g2) \<Rightarrow>
          (let linked = trim (case g2 of None \<Rightarrow> [] | Some n \<Rightarrow> n) in
           Some \<lparr>member_id = g1,
                 member_name = (if linked \<noteq> [] then linked else extractMemberName txt)\<rparr>)
      | None \<Rightarrow>
          (let name = extractMemberName txt in
           if name \<noteq> [] then Some \<lparr>member_id = name, member_name = name\<rparr> else None))"

section \<open>The aggregator\<close>

record xanax_entry =
  x_count :: int
  x_name :: string

record points_entry =
  p_amount :: int
  p_name :: string

text \<open>
  The two closures of \<^verbatim>\<open>extractConsumption\<close>, with the object they update made an
  argument. \<^verbatim>\<open>!id\<close> is the empty string, \<^verbatim>\<open>!amount\<close> is zero, and \<^verbatim>\<open>name || cur.name\<close> keeps the
  stored name when the new one is empty.
\<close>

definition addXanax ::
  "string \<Rightarrow> string \<Rightarrow> (string, xanax_entry) alist \<Rightarrow> (string, xanax_entry) alist" where
  "addXanax mid name xanax =
     (if mid = [] then xanax
      else (let cur = (case DAList.lookup xanax mid of
                         Some e \<Rightarrow> e
                       | None \<Rightarrow> \<lparr>x_count = 0, x_name = name\<rparr>)
            in DAList.update mid
                 \<lparr>x_count = x_count cur + 1,
                  x_name = (if name \<noteq> [] then name else x_name cur)\<rparr> xanax))"

definition addPoints ::
  "string \<Rightarrow> int \<Rightarrow> string \<Rightarrow> (string, points_entry) alist \<Rightarrow> (string, points_entry) alist" where
  "addPoints mid amount name points =
     (if mid = [] \<or> amount = 0 then points
      else (let cur = (case DAList.lookup points mid of
                         Some e \<Rightarrow> e
                       | None \<Rightarrow> \<lparr>p_amount = 0, p_name = name\<rparr>)
            in DAList.update mid
                 \<lparr>p_amount = p_amount cur + amount,
                  p_name = (if name \<noteq> [] then name else p_name cur)\<rparr> points))"

text \<open>
  A feed item. \<^verbatim>\<open>timestamp\<close> and \<^verbatim>\<open>time\<close> are numbers when present, \<^verbatim>\<open>id\<close> is a number or
  a string, and the three message properties are strings.
\<close>

record news_item =
  item_timestamp :: "int option"
  item_time :: "int option"
  item_id :: "jsval option"
  item_news :: "string option"
  item_text :: "string option"
  item_content :: "string option"

text \<open>
  Two operations of the host language are parameters of the model: the conversion of a
  string to a number in a comparison (\<open>None\<close> is \<^verbatim>\<open>NaN\<close>), and \<^verbatim>\<open>JSON.stringify\<close> of an item.
\<close>

record builtins =
  ToNumber :: "string \<Rightarrow> int option"
  JSON_stringify :: "news_item \<Rightarrow> string"

text \<open>\<^verbatim>\<open>item.timestamp ?? item.time ?? item.id\<close>\<close>

definition item_ts :: "news_item \<Rightarrow> jsval option" where
  "item_ts item =
     nullish (map_option JNum (item_timestamp item))
       (nullish (map_option JNum (item_time item)) (item_id item))"

definition to_number :: "builtins \<Rightarrow> jsval option \<Rightarrow> int option" where
  "to_number env v = (case v of None \<Rightarrow> None | Some (JNum n) \<Rightarrow> Some n | Some (JStr s) \<Rightarrow> ToNumber env s)"

text \<open>\<^verbatim>\<open>item.id ?? `${ts}-${JSON.stringify(item).slice(0, 50)}`\<close>\<close>

definition item_key :: "builtins \<Rightarrow> news_item \<Rightarrow> jsval" where
  "item_key env item =
     (case item_id item of
        Some v \<Rightarrow> v
      | None \<Rightarrow> JStr (js_String (item_ts item) @ ''-'' @ take 50 (JSON_stringify env item)))"

text \<open>\<^verbatim>\<open>item.news ?? item.text ?? item.content ?? ''\<close>\<close>

definition item_message :: "news_item \<Rightarrow> string" where
  "item_message item =
     (case nullish (item_news item) (nullish (item_text item) (item_content item)) of
        Some t \<Rightarrow> t
      | None \<Rightarrow> [])"

text \<open>
  The state of the loop of \<^verbatim>\<open>extractConsumption\<close>: the two objects it returns and the
  set \<^verbatim>\<open>processedIds\<close> it mutates in place.
\<close>

record extraction =
  ex_xanax :: "(string, xanax_entry) alist"
  ex_points :: "(string, points_entry) alist"
  ex_processed :: "jsval list"

text \<open>One iteration of the loop; every \<^verbatim>\<open>continue\<close> returns the state as it is.\<close>

definition process_item ::
  "builtins \<Rightarrow> int option \<Rightarrow> int option \<Rightarrow> news_item \<Rightarrow> extraction \<Rightarrow> extraction" where
  "process_item env chainStart chainEnd item st =
     (let ts = to_number env (item_ts item) in
      if js_lt ts chainStart then st
      else if js_lt chainEnd ts then st
      else (let itemId = item_key env item in
            if itemId \<in> set (ex_processed st) then st
            else (let st1 = st\<lparr>ex_processed := ex_processed st @ [itemId]\<rparr>;
                      txt = item_message item
                  in case extractMemberIdAndName txt of
                       None \<Rightarrow> st1
                     | Some m \<Rightarrow>
                         (let st2 = (if js_includes txt XANAX_PHRASE
                                     then st1\<lparr>ex_xanax :=
                                            addXanax (member_id m) (member_name m) (ex_xanax st1)\<rparr>
                                     else st1)
                          in st2\<lparr>ex_points :=
                                  fold (\<lambda>ds. addPoints (member_id m) (parseInt ds) (member_name m))
                                    (points_matches txt) (ex_points st2)\<rparr>))))"

definition extractConsumption ::
  "builtins \<Rightarrow> news_item list \<Rightarrow> int option \<Rightarrow> int option \<Rightarrow> jsval list \<Rightarrow> extraction" where
  "extractConsumption env newsItems chainStart chainEnd processedIds =
     fold (process_item env chainStart chainEnd) newsItems
       \<lparr>ex_xanax = DAList.empty, ex_points = DAList.empty, ex_processed = processedIds\<rparr>"

section \<open>The chain record and the merger\<close>

record hit_entry =
  h_hits :: int
  h_respect :: int
  h_name :: string

record cons_entry =
  c_xanax :: int
  c_points :: int
  c_name :: string

record chain_totals =
  t_hits :: int
  t_respect :: int
  t_xanax :: int
  t_points :: int

datatype chain_status = Active | Finished

record chain_record =
  chainId :: int
  chain_start :: "int option"
  chain_end :: "int option"
  status :: chain_status
  hits :: "(string, hit_entry) alist"
  consumption :: "(string, cons_entry) alist"
  totals :: chain_totals
  processedNewsIds :: "jsval list"

text \<open>
  The two loops of \<^verbatim>\<open>mergeConsumption\<close> over \<^verbatim>\<open>Object.entries\<close>. On a number \<^verbatim>\<open>cur.xanax || 0\<close>
  is \<^verbatim>\<open>cur.xanax\<close>.
\<close>

definition merge_xanax ::
  "string \<times> xanax_entry \<Rightarrow> (string, cons_entry) alist \<Rightarrow> (string, cons_entry) alist" where
  "merge_xanax kd cons =
     (let cur = (case DAList.lookup cons (fst kd) of
                   Some e \<Rightarrow> e
                 | None \<Rightarrow> \<lparr>c_xanax = 0, c_points = 0, c_name = x_name (snd kd)\<rparr>)
      in DAList.update (fst kd)
           (cur\<lparr>c_xanax := c_xanax cur + x_count (snd kd),
                c_name := (if x_name (snd kd) \<noteq> [] then x_name (snd kd) else c_name cur)\<rparr>) cons)"

definition merge_points ::
  "string \<times> points_entry \<Rightarrow> (string, cons_entry) alist \<Rightarrow> (string, cons_entry) alist" where
  "merge_points kd cons =
     (let cur = (case DAList.lookup cons (fst kd) of
                   Some e \<Rightarrow> e
                 | None \<Rightarrow> \<lparr>c_xanax = 0, c_points = 0, c_name = p_name (snd kd)\<rparr>)
      in DAList.update (fst kd)
           (cur\<lparr>c_points := c_points cur + p_amount (snd kd),
                c_name := (if p_name (snd kd) \<noteq> [] then p_name (snd kd) else c_name cur)\<rparr>) cons)"

definition mergeConsumption ::
  "chain_record \<Rightarrow> (string, xanax_entry) alist \<Rightarrow> (string, points_entry) alist \<Rightarrow> chain_record" where
  "mergeConsumption chain xanax points =
     chain\<lparr>consumption :=
       fold merge_points (DAList.impl_of points)
         (fold merge_xanax (DAList.impl_of xanax) (consumption chain))\<rparr>"

text \<open>\<^verbatim>\<open>updateTotals\<close>: four accumulators, two loops over \<^verbatim>\<open>Object.values\<close>.\<close>

definition updateTotals :: "chain_record \<Rightarrow> chain_record" where
  "updateTotals chain =
     (let t0 = \<lparr>t_hits = 0, t_respect = 0, t_xanax = 0, t_points = 0\<rparr>;
          t1 = fold (\<lambda>m t. t\<lparr>t_hits := t_hits t + h_hits m, t_respect := t_respect t + h_respect m\<rparr>)
                 (map snd (DAList.impl_of (hits chain))) t0;
          t2 = fold (\<lambda>c t. t\<lparr>t_xanax := t_xanax t + c_xanax c, t_points := t_points t + c_points c\<rparr>)
                 (map snd (DAList.impl_of (consumption chain))) t1
      in chain\<lparr>totals := t2\<rparr>)"

section \<open>The paginator\<close>

text \<open>
  The transport (\<^verbatim>\<open>js/api.js\<close>) is a collaborator of the engine: its two read operations
  are parameters of the model, each returning the response or the error it rejects
  with. A page of the feed is taken after the alternatives of its shape are resolved
  (\<^verbatim>\<open>data.news ?? data.faction?.news ?? []\<close> as a list, \<^verbatim>\<open>links.prev ?? meta.prev\<close> as a
  string).
\<close>

text \<open>
  A report is taken after \<^verbatim>\<open>reportData.chainreport ?? reportData\<close>, and an attacker's
  \<^verbatim>\<open>attacks\<close> and \<^verbatim>\<open>respect\<close> after \<^verbatim>\<open>x?.total ?? x\<close>: each is the number, whichever shape
  carried it.
\<close>

datatype api_error = ApiError string bool

record news_page =
  page_items :: "news_item list"
  page_prev :: "string option"

record attacker =
  a_id :: "jsval option"
  a_user_id :: "jsval option"
  a_attacker_id :: "jsval option"
  a_attacks :: "int option"
  a_hits :: "int option"
  a_respect :: "int option"
  a_name :: "string option"
  a_username :: "string option"

record chain_report =
  r_attackers :: "attacker list option"
  r_attacker :: "attacker list option"
  r_end :: "int option"

record api =
  fetchChainReport :: "int \<Rightarrow> string \<Rightarrow> api_error + chain_report"
  fetchFactionNews :: "string \<Rightarrow> string option \<Rightarrow> api_error + news_page"

text \<open>
  The inner loop of \<^verbatim>\<open>fetchAllFactionNews\<close> over one page: the items pushed to
  \<^verbatim>\<open>allNews\<close> before the \<^verbatim>\<open>break\<close>, and \<^verbatim>\<open>reachedChainStart\<close>.
\<close>

definition before_start :: "builtins \<Rightarrow> int option \<Rightarrow> news_item \<Rightarrow> bool" where
  "before_start env chainStart item =
     (item_ts item \<noteq> None \<and> js_lt (to_number env (item_ts item)) chainStart)"

fun scan_page :: "builtins \<Rightarrow> int option \<Rightarrow> news_item list \<Rightarrow> news_item list \<times> bool" where
  "scan_page env chainStart [] = ([], False)"
| "scan_page env chainStart (item # items) =
     (if before_start env chainStart item then ([], True)
      else (case scan_page env chainStart items of (kept, reached) \<Rightarrow> (item # kept, reached)))"

text \<open>\<^verbatim>\<open>!prev\<close>: no cursor, or an empty one.\<close>

definition no_cursor :: "string option \<Rightarrow> bool" where
  "no_cursor prev = (prev = None \<or> prev = Some [])"

text \<open>
  The \<^verbatim>\<open>while (true)\<close> loop. It returns the items collected, or the error of a failed
  request, together with the cursors of the requests it issued, in order. A feed whose
  cursors never end keeps the loop running: the value is then \<open>None\<close>.
\<close>

partial_function (option) collect_news ::
  "builtins \<Rightarrow> api \<Rightarrow> string \<Rightarrow> int option \<Rightarrow> string option \<Rightarrow> news_item list \<Rightarrow> string option list
     \<Rightarrow> ((api_error + news_item list) \<times> string option list) option" where
  "collect_news env server apiKey chainStart before allNews requests =
     (case fetchFactionNews server apiKey before of
        Inl err \<Rightarrow> Some (Inl err, requests @ [before])
      | Inr data \<Rightarrow>
          (if no_cursor (page_prev data) \<or> snd (scan_page env chainStart (page_items data))
           then Some (Inr (allNews @ fst (scan_page env chainStart (page_items data))),
                      requests @ [before])
           else collect_news env server apiKey chainStart (page_prev data)
                  (allNews @ fst (scan_page env chainStart (page_items data)))
                  (requests @ [before])))"

definition fetchAllFactionNews ::
  "builtins \<Rightarrow> api \<Rightarrow> string \<Rightarrow> int option \<Rightarrow> int option \<Rightarrow> jsval list
     \<Rightarrow> (api_error + extraction) option" where
  "fetchAllFactionNews env server apiKey chainStart chainEnd processedIds =
     (case collect_news env server apiKey chainStart None [] [] of
        None \<Rightarrow> None
      | Some (Inl err, requests) \<Rightarrow> Some (Inl err)
      | Some (Inr allNews, requests) \<Rightarrow>
          Some (Inr (extractConsumption env allNews chainStart chainEnd processedIds)))"

section \<open>The orchestrator\<close>

text \<open>
  The chain-status payload that drives a sync, the persistence store (the \<^verbatim>\<open>chains\<close>
  object store and the \<^verbatim>\<open>config\<close> store), and the two readings of
  the clock (\<^verbatim>\<open>Math.floor(Date.now() / 1000)\<close> when the end bound is resolved and when
  the sync is persisted).
\<close>

record current_chain =
  cc_id :: "int option"
  cc_chain_id :: "int option"
  cc_chainId :: "int option"
  cc_start :: "int option"
  cc_chain_start :: "int option"
  cc_current :: "int option"
  cc_end :: "int option"

record db_state =
  db_chains :: "chain_record list"
  db_config :: "string \<Rightarrow> jsval option"

text \<open>
  The \<^verbatim>\<open>chains\<close> store has the key path \<^verbatim>\<open>chainId\<close>: a record is found by its own
  \<^verbatim>\<open>chainId\<close>, and \<^verbatim>\<open>put\<close> replaces the record of the same \<^verbatim>\<open>chainId\<close>.
\<close>

definition getChain :: "db_state \<Rightarrow> int \<Rightarrow> chain_record option" where
  "getChain db cid = find (\<lambda>c. chainId c = cid) (db_chains db)"

definition saveChain :: "chain_record \<Rightarrow> db_state \<Rightarrow> db_state" where
  "saveChain chain db =
     db\<lparr>db_chains := chain # filter (\<lambda>c. chainId c \<noteq> chainId chain) (db_chains db)\<rparr>"

definition setConfig :: "string \<Rightarrow> jsval \<Rightarrow> db_state \<Rightarrow> db_state" where
  "setConfig k v db = db\<lparr>db_config := (db_config db)(k \<mapsto> v)\<rparr>"

text \<open>\<^verbatim>\<open>new Set(array)\<close>: the members in the order of their first occurrence.\<close>

definition set_add :: "'a \<Rightarrow> 'a list \<Rightarrow> 'a list" where
  "set_add x xs = (if x \<in> set xs then xs else xs @ [x])"

definition new_Set :: "'a list \<Rightarrow> 'a list" where
  "new_Set xs = fold set_add xs []"

text \<open>A value is truthy: a number other than zero.\<close>

definition truthy :: "int option \<Rightarrow> bool" where
  "truthy v = (case v of None \<Rightarrow> False | Some n \<Rightarrow> n \<noteq> 0)"

text \<open>The entry of the \<^verbatim>\<open>hits\<close> object that one attacker of the report writes.\<close>

definition attacker_key :: "attacker \<Rightarrow> string" where
  "attacker_key a = js_String (nullish (a_id a) (nullish (a_user_id a) (a_attacker_id a)))"

definition attacker_entry :: "attacker \<Rightarrow> hit_entry" where
  "attacker_entry a =
     \<lparr>h_hits = (case nullish (a_attacks a) (a_hits a) of Some n \<Rightarrow> n | None \<Rightarrow> 0),
      h_respect = (case a_respect a of Some n \<Rightarrow> n | None \<Rightarrow> 0),
      h_name = (case nullish (a_name a) (a_username a) of Some n \<Rightarrow> n | None \<Rightarrow> attacker_key a)\<rparr>"

definition report_hits :: "attacker list \<Rightarrow> (string, hit_entry) alist" where
  "report_hits attackers =
     fold (\<lambda>a h. DAList.update (attacker_key a) (attacker_entry a) h) attackers DAList.empty"

datatype sync_error = Rejected api_error | DataError

text \<open>
  The head of \<^verbatim>\<open>loadAndSyncChain\<close>: the chain id, the start bound, the flag
  \<^verbatim>\<open>isActive\<close> and the end bound \<^verbatim>\<open>end\<close>, resolved from the payload.
\<close>

definition payload_chainId :: "current_chain \<Rightarrow> int option" where
  "payload_chainId currentChain =
     nullish (cc_id currentChain) (nullish (cc_chain_id currentChain) (cc_chainId currentChain))"

definition payload_start :: "current_chain \<Rightarrow> int option" where
  "payload_start currentChain = nullish (cc_start currentChain) (cc_chain_start currentChain)"

definition payload_isActive :: "current_chain \<Rightarrow> bool" where
  "payload_isActive currentChain = (cc_current currentChain \<noteq> None \<or> cc_end currentChain = None)"

definition payload_end :: "int \<Rightarrow> current_chain \<Rightarrow> int" where
  "payload_end now currentChain =
     (if payload_isActive currentChain then now
      else (case cc_end currentChain of Some e \<Rightarrow> e | None \<Rightarrow> now))"

text \<open>The record seeded when the store has none for the chain id.\<close>

definition seeded_chain :: "int \<Rightarrow> int \<Rightarrow> current_chain \<Rightarrow> chain_record" where
  "seeded_chain cid now currentChain =
     \<lparr>chainId = cid,
      chain_start = payload_start currentChain,
      chain_end = (if payload_isActive currentChain then None else Some (payload_end now currentChain)),
      status = (if payload_isActive currentChain then Active else Finished),
      hits = DAList.empty,
      consumption = DAList.empty,
      totals = \<lparr>t_hits = 0, t_respect = 0, t_xanax = 0, t_points = 0\<rparr>,
      processedNewsIds = []\<rparr>"

text \<open>The record the sync works on: the persisted one, or a seeded one.\<close>

definition loaded_chain :: "db_state \<Rightarrow> int \<Rightarrow> int \<Rightarrow> current_chain \<Rightarrow> chain_record" where
  "loaded_chain db cid now currentChain =
     (case getChain db cid of
        Some c \<Rightarrow> c
      | None \<Rightarrow> seeded_chain cid now currentChain)"

text \<open>\<^verbatim>\<open>report.attackers ?? report.attacker ?? []\<close>\<close>

definition report_attackers :: "chain_report \<Rightarrow> attacker list" where
  "report_attackers report =
     (case nullish (r_attackers report) (r_attacker report) of Some l \<Rightarrow> l | None \<Rightarrow> [])"

text \<open>
  The part of \<^verbatim>\<open>loadAndSyncChain\<close> after the two fetches have resolved: the mutations
  of \<^verbatim>\<open>chain\<close>, in the order of the source.
\<close>

definition apply_fetched ::
  "chain_record \<Rightarrow> chain_report \<Rightarrow> extraction \<Rightarrow> current_chain \<Rightarrow> int \<Rightarrow> chain_record" where
  "apply_fetched chain report cons currentChain end_bound =
     (let chain1 = chain\<lparr>hits := report_hits (report_attackers report)\<rparr>;
          chain2 = mergeConsumption chain1 (ex_xanax cons) (ex_points cons);
          chain3 = chain2\<lparr>processedNewsIds := ex_processed cons\<rparr>;
          chain4 = chain3\<lparr>chain_end :=
                     (if truthy (cc_current currentChain) then None
                      else Some (case r_end report of Some e \<Rightarrow> e | None \<Rightarrow> end_bound))\<rparr>;
          chain5 = chain4\<lparr>status := (if truthy (chain_end chain4) then Finished else Active)\<rparr>
      in updateTotals chain5)"

text \<open>
  \<^verbatim>\<open>loadAndSyncChain\<close>, on a store \<open>db\<close>: the value it resolves to or the error it rejects
  with, and the store afterwards; \<open>None\<close> when the paginator never returns.
  \<^verbatim>\<open>db.getChain(undefined)\<close> is refused by the store. Of the two concurrent fetches the
  report is looked at first: when both fail, its error is the one reported. The config
  write comes before \<^verbatim>\<open>saveChain\<close>, as in the source.
\<close>

definition loadAndSyncChain ::
  "builtins \<Rightarrow> api \<Rightarrow> int \<Rightarrow> int \<Rightarrow> string \<Rightarrow> current_chain \<Rightarrow> db_state
     \<Rightarrow> ((sync_error + chain_record) \<times> db_state) option" where
  "loadAndSyncChain env server now now_saved apiKey currentChain db =
     (case payload_chainId currentChain of
        None \<Rightarrow> Some (Inl DataError, db)
      | Some cid \<Rightarrow>
          (let chain = loaded_chain db cid now currentChain;
               processedIds = new_Set (processedNewsIds chain)
           in case fetchChainReport server cid apiKey of
                Inl err \<Rightarrow> Some (Inl (Rejected err), db)
              | Inr report \<Rightarrow>
                  (case fetchAllFactionNews env server apiKey (payload_start currentChain)
                          (Some (payload_end now currentChain)) processedIds of
                     None \<Rightarrow> None
                   | Some (Inl err) \<Rightarrow> Some (Inl (Rejected err), db)
                   | Some (Inr cons) \<Rightarrow>
                       (let chain' = apply_fetched chain report cons currentChain
                                       (payload_end now currentChain);
                            db1 = setConfig ''lastSyncTimestamp'' (JNum now_saved) db;
                            db2 = saveChain chain' db1
                        in Some (Inr chain', db2)))))"

text \<open>
  The callback of the interval that \<^verbatim>\<open>startAutoRefresh(apiKey, chain)\<close> installs, when
  the view is visible and no refresh is in flight. \<open>chain\<close> is the record the callback
  captured when the interval was installed; \<open>fetched\<close> is what
  \<^verbatim>\<open>api.fetchCurrentChain\<close> resolves to (\<open>None\<close> is \<^verbatim>\<open>null\<close>) or rejects with. The
  result is the captured record, the store, and whether the interval is still
  installed. Every error is swallowed by the \<^verbatim>\<open>catch\<close>.
\<close>

text \<open>\<^verbatim>\<open>!currentChain?.current && !currentChain?.id\<close>\<close>

definition chain_gone :: "current_chain option \<Rightarrow> bool" where
  "chain_gone cur =
     (case cur of
        None \<Rightarrow> True
      | Some cc \<Rightarrow> \<not> truthy (cc_current cc) \<and> \<not> truthy (cc_id cc))"

definition refresh_tick ::
  "builtins \<Rightarrow> api \<Rightarrow> api_error + current_chain option \<Rightarrow> int \<Rightarrow> int \<Rightarrow> string
     \<Rightarrow> chain_record \<Rightarrow> db_state \<Rightarrow> (chain_record \<times> db_state \<times> bool) option" where
  "refresh_tick env server fetched now now_saved apiKey chain db =
     (case fetched of
        Inl err \<Rightarrow> Some (chain, db, True)
      | Inr cur \<Rightarrow>
          (if chain_gone cur
           then (let chain1 = chain\<lparr>status := Finished\<rparr>;
                     chain2 = chain1\<lparr>chain_end :=
                                (case chain_end chain1 of Some e \<Rightarrow> Some e | None \<Rightarrow> Some now)\<rparr>
                 in Some (chain2, saveChain chain2 db, False))
           else (case cur of
                   None \<Rightarrow> Some (chain, db, True)
                 | Some currentChain \<Rightarrow>
                     (case loadAndSyncChain env server now now_saved apiKey currentChain db of
                        None \<Rightarrow> None
                      | Some (res, db') \<Rightarrow> Some (chain, db', True)))))"

section \<open>Views used by the properties\<close>

subsection \<open>The calls of the aggregator as events\<close>

text \<open>
  One call of \<^verbatim>\<open>addXanax(id, name)\<close> or \<^verbatim>\<open>addPoints(id, amount, name)\<close> is an event; the
  aggregator folds a list of them, from two empty objects.
\<close>

datatype consumption_event = ItemUse string string | CurrencySpend string int string

fun apply_event ::
  "consumption_event \<Rightarrow> (string, xanax_entry) alist \<times> (string, points_entry) alist
     \<Rightarrow> (string, xanax_entry) alist \<times> (string, points_entry) alist" where
  "apply_event (ItemUse mid name) (xanax, points) = (addXanax mid name xanax, points)"
| "apply_event (CurrencySpend mid amount name) (xanax, points) = (xanax, addPoints mid amount name points)"

definition aggregate ::
  "consumption_event list \<Rightarrow> (string, xanax_entry) alist \<times> (string, points_entry) alist" where
  "aggregate evs = fold apply_event evs (DAList.empty, DAList.empty)"

text \<open>The calls that the body of the loop makes for one message, in order.\<close>

definition item_events :: "string \<Rightarrow> consumption_event list" where
  "item_events txt =
     (case extractMemberIdAndName txt of
        None \<Rightarrow> []
      | Some m \<Rightarrow>
          (if js_includes txt XANAX_PHRASE then [ItemUse (member_id m) (member_name m)] else [])
          @ map (\<lambda>ds. CurrencySpend (member_id m) (parseInt ds) (member_name m)) (points_matches txt))"

text \<open>The names of the calls that write the entry of one actor, in order.\<close>

fun use_names :: "string \<Rightarrow> consumption_event list \<Rightarrow> string list" where
  "use_names k [] = []"
| "use_names k (ItemUse mid name # evs) = (if mid = k then name # use_names k evs else use_names k evs)"
| "use_names k (CurrencySpend mid amount name # evs) = use_names k evs"

fun spend_names :: "string \<Rightarrow> consumption_event list \<Rightarrow> string list" where
  "spend_names k [] = []"
| "spend_names k (ItemUse mid name # evs) = spend_names k evs"
| "spend_names k (CurrencySpend mid amount name # evs) =
     (if mid = k \<and> amount \<noteq> 0 then name # spend_names k evs else spend_names k evs)"

fun spend_amounts :: "string \<Rightarrow> consumption_event list \<Rightarrow> int list" where
  "spend_amounts k [] = []"
| "spend_amounts k (ItemUse mid name # evs) = spend_amounts k evs"
| "spend_amounts k (CurrencySpend mid amount name # evs) =
     (if mid = k \<and> amount \<noteq> 0 then amount # spend_amounts k evs else spend_amounts k evs)"

text \<open>The last name of a list that is not empty; the empty string when there is none.\<close>

definition last_seen :: "string list \<Rightarrow> string" where
  "last_seen names = fold (\<lambda>n acc. if n \<noteq> [] then n else acc) names []"

subsection \<open>A feed as a sequence of pages\<close>

text \<open>
  A page ends the pagination when it has no cursor to the previous page or holds an
  item before the start bound.
\<close>

definition page_stops :: "builtins \<Rightarrow> int option \<Rightarrow> news_page \<Rightarrow> bool" where
  "page_stops env chainStart pg =
     (no_cursor (page_prev pg) \<or> list_ex (before_start env chainStart) (page_items pg))"

text \<open>
  The server answers the request with cursor \<open>before\<close> by the first page, and the
  request with each page's cursor by the next page, up to a page that ends the
  pagination.
\<close>

fun serves :: "builtins \<Rightarrow> api \<Rightarrow> string \<Rightarrow> int option \<Rightarrow> string option \<Rightarrow> news_page list \<Rightarrow> bool" where
  "serves env server apiKey chainStart before [] = False"
| "serves env server apiKey chainStart before (pg # pgs) =
     (fetchFactionNews server apiKey before = Inr pg \<and>
      (page_stops env chainStart pg \<or> serves env server apiKey chainStart (page_prev pg) pgs))"

text \<open>
  What the stop condition asks of the paginator: of each page the items before the
  first one that is older than the start bound, no page after a page that ends the
  pagination, and one request per page taken.
\<close>

fun pages_news :: "builtins \<Rightarrow> int option \<Rightarrow> news_page list \<Rightarrow> news_item list" where
  "pages_news env chainStart [] = []"
| "pages_news env chainStart (pg # pgs) =
     takeWhile (\<lambda>item. \<not> before_start env chainStart item) (page_items pg)
     @ (if page_stops env chainStart pg then [] else pages_news env chainStart pgs)"

fun pages_requests :: "builtins \<Rightarrow> int option \<Rightarrow> string option \<Rightarrow> news_page list \<Rightarrow> string option list" where
  "pages_requests env chainStart before [] = []"
| "pages_requests env chainStart before (pg # pgs) =
     before # (if page_stops env chainStart pg then []
               else pages_requests env chainStart (page_prev pg) pgs)"

subsection \<open>A sequence of syncs\<close>

record sync_request =
  sr_server :: api
  sr_now :: int
  sr_now_saved :: int
  sr_apiKey :: string
  sr_payload :: current_chain

definition sync_once :: "builtins \<Rightarrow> sync_request \<Rightarrow> db_state \<Rightarrow> ((sync_error + chain_record) \<times> db_state) option" where
  "sync_once env rq db =
     loadAndSyncChain env (sr_server rq) (sr_now rq) (sr_now_saved rq) (sr_apiKey rq) (sr_payload rq) db"

text \<open>The store after a sequence of syncs, each on the store the previous one left.\<close>

fun run_syncs :: "builtins \<Rightarrow> sync_request list \<Rightarrow> db_state \<Rightarrow> db_state option" where
  "run_syncs env [] db = Some db"
| "run_syncs env (rq # rqs) db =
     (case sync_once env rq db of
        None \<Rightarrow> None
      | Some (res, db') \<Rightarrow> run_syncs env rqs db')"

subsection \<open>A dashboard session\<close>

text \<open>
  The ticks of the interval, each on the store and the captured record the previous
  one left, until the interval is cleared.
\<close>

record tick_request =
  tk_fetched :: "api_error + current_chain option"
  tk_server :: api
  tk_now :: int
  tk_now_saved :: int

fun run_ticks ::
  "builtins \<Rightarrow> string \<Rightarrow> tick_request list \<Rightarrow> chain_record \<Rightarrow> db_state \<Rightarrow> db_state option" where
  "run_ticks env apiKey [] chain db = Some db"
| "run_ticks env apiKey (t # ts) chain db =
     (case refresh_tick env (tk_server t) (tk_fetched t) (tk_now t) (tk_now_saved t) apiKey chain db of
        None \<Rightarrow> None
      | Some (chain', db', running) \<Rightarrow>
          (if running then run_ticks env apiKey ts chain' db' else Some db'))"

text \<open>
  The end of \<^verbatim>\<open>init\<close>: the first sync, then \<^verbatim>\<open>startAutoRefresh\<close> with the record it
  returned, which installs the interval only for an active chain.
\<close>

definition dashboard_session ::
  "builtins \<Rightarrow> sync_request \<Rightarrow> tick_request list \<Rightarrow> db_state \<Rightarrow> db_state option" where
  "dashboard_session env rq ticks db =
     (case sync_once env rq db of
        None \<Rightarrow> None
      | Some (Inl err, db1) \<Rightarrow> Some db1
      | Some (Inr chain, db1) \<Rightarrow>
          (if status chain = Active then run_ticks env (sr_apiKey rq) ticks chain db1
           else Some db1))"

text \<open>The consumption entry of an actor in the persisted record of a chain.\<close>

definition stored_consumption :: "db_state option \<Rightarrow> int \<Rightarrow> string \<Rightarrow> cons_entry option" where
  "stored_consumption dbo cid actor =
     (case dbo of
        None \<Rightarrow> None
      | Some db \<Rightarrow>
          (case getChain db cid of
             None \<Rightarrow> None
           | Some c \<Rightarrow> DAList.lookup (consumption c) actor))"

definition stored_processed :: "db_state option \<Rightarrow> int \<Rightarrow> jsval list option" where
  "stored_processed dbo cid =
     (case dbo of
        None \<Rightarrow> None
      | Some db \<Rightarrow> map_option processedNewsIds (getChain db cid))"

subsection \<open>Sample data\<close>

text \<open>
  Builtins under which no string converts to a number, and a feed item of the shape
  the transport delivers: a timestamp, a string id and a message.
\<close>

definition plain_env :: builtins where
  "plain_env = \<lparr>ToNumber = (\<lambda>s. None), JSON_stringify = (\<lambda>item. [])\<rparr>"

definition feed_item :: "int \<Rightarrow> string \<Rightarrow> string \<Rightarrow> news_item" where
  "feed_item t k msg =
     \<lparr>item_timestamp = Some t, item_time = None, item_id = Some (JStr k),
      item_news = None, item_text = Some msg, item_content = None\<rparr>"

definition ts_page :: "int list \<Rightarrow> string option \<Rightarrow> news_page" where
  "ts_page stamps prev =
     \<lparr>page_items = map (\<lambda>t. feed_item t (string_of_int t) ''chatter'') stamps, page_prev = prev\<rparr>"

definition three_page_server :: api where
  "three_page_server =
     \<lparr>fetchChainReport = (\<lambda>cid k. Inl (ApiError ''no report'' False)),
      fetchFactionNews = (\<lambda>k before.
        if before = None then Inr (ts_page [100, 99, 98, 97, 96, 95, 94, 93, 92, 91, 90] (Some ''p2''))
        else if before = Some ''p2'' then Inr (ts_page [89, 88, 87, 86, 85, 84, 83, 82, 81, 80] (Some ''p3''))
        else if before = Some ''p3'' then Inr (ts_page [79, 78, 77, 76, 75, 74, 73, 72, 71, 70] None)
        else Inl (ApiError ''no such page'' False))\<rparr>"

text \<open>
  A server whose report and single page of news (with no cursor) are given, an empty
  store, a payload for a chain in progress and one for a chain that has ended, and
  an attacker of a report.
\<close>

definition one_page_server :: "chain_report \<Rightarrow> news_item list \<Rightarrow> api" where
  "one_page_server report items =
     \<lparr>fetchChainReport = (\<lambda>cid k. Inr report),
      fetchFactionNews = (\<lambda>k before. Inr \<lparr>page_items = items, page_prev = None\<rparr>)\<rparr>"

definition empty_db :: db_state where
  "empty_db = \<lparr>db_chains = [], db_config = (\<lambda>k. None)\<rparr>"

definition running_payload :: "int \<Rightarrow> int \<Rightarrow> int \<Rightarrow> current_chain" where
  "running_payload cid start current =
     \<lparr>cc_id = Some cid, cc_chain_id = None, cc_chainId = None, cc_start = Some start,
      cc_chain_start = None, cc_current = Some current, cc_end = None\<rparr>"

definition ended_payload :: "int \<Rightarrow> int \<Rightarrow> int option \<Rightarrow> current_chain" where
  "ended_payload cid start ended =
     \<lparr>cc_id = Some cid, cc_chain_id = Some cid, cc_chainId = None, cc_start = Some start,
      cc_chain_start = None, cc_current = None, cc_end = ended\<rparr>"

definition report_attacker :: "string \<Rightarrow> int \<Rightarrow> int \<Rightarrow> attacker" where
  "report_attacker k n r =
     \<lparr>a_id = Some (JStr k), a_user_id = None, a_attacker_id = None, a_attacks = Some n,
      a_hits = None, a_respect = Some r, a_name = None, a_username = None\<rparr>"

text \<open>An attacker of which the report gives only a numeric \<^verbatim>\<open>user_id\<close>.\<close>

definition bare_attacker :: "int \<Rightarrow> attacker" where
  "bare_attacker n =
     \<lparr>a_id = None, a_user_id = Some (JNum n), a_attacker_id = None, a_attacks = None,
      a_hits = None, a_respect = None, a_name = None, a_username = None\<rparr>"

definition report_of :: "attacker list \<Rightarrow> int option \<Rightarrow> chain_report" where
  "report_of attackers ended = \<lparr>r_attackers = Some attackers, r_attacker = None, r_end = ended\<rparr>"

text \<open>The news fetch that a sync of the chain \<open>cid\<close> runs on the store \<open>db\<close>.\<close>

definition sync_news ::
  "builtins \<Rightarrow> api \<Rightarrow> int \<Rightarrow> string \<Rightarrow> current_chain \<Rightarrow> db_state \<Rightarrow> int
     \<Rightarrow> (api_error + extraction) option" where
  "sync_news env server now apiKey currentChain db cid =
     fetchAllFactionNews env server apiKey (payload_start currentChain)
       (Some (payload_end now currentChain))
       (new_Set (processedNewsIds (loaded_chain db cid now currentChain)))"

text \<open>A server whose report request fails, and one whose news request fails.\<close>

definition failing_report_server :: "api_error \<Rightarrow> news_item list \<Rightarrow> api" where
  "failing_report_server err items =
     \<lparr>fetchChainReport = (\<lambda>cid k. Inl err),
      fetchFactionNews = (\<lambda>k before. Inr \<lparr>page_items = items, page_prev = None\<rparr>)\<rparr>"

definition failing_news_server :: "chain_report \<Rightarrow> api_error \<Rightarrow> api" where
  "failing_news_server report err =
     \<lparr>fetchChainReport = (\<lambda>cid k. Inr report),
      fetchFactionNews = (\<lambda>k before. Inl err)\<rparr>"

text \<open>A persisted record of chain 7 that already holds consumption of actor A.\<close>

definition tracked_chain :: chain_record where
  "tracked_chain =
     \<lparr>chainId = 7, chain_start = Some 900, chain_end = None, status = Active,
      hits = DAList.empty,
      consumption = DAList.update ''A'' \<lparr>c_xanax = 1, c_points = 1000, c_name = ''A''\<rparr> DAList.empty,
      totals = \<lparr>t_hits = 0, t_respect = 0, t_xanax = 1, t_points = 1000\<rparr>,
      processedNewsIds = [JStr ''n1'', JStr ''n2'']\<rparr>"

text \<open>
  A session on chain 7. The first sync (at 1000) finds one item: A used a Xanax. The
  first tick (at 1120) finds the chain in progress and two more items: A used another
  Xanax, B spent 500 points. The second tick (at 1240) finds no chain.
\<close>

definition opening_sync :: sync_request where
  "opening_sync =
     \<lparr>sr_server = one_page_server (report_of [] None)
        [feed_item 950 ''n1'' ''A used one of the faction's Xanax items''],
      sr_now = 1000, sr_now_saved = 1001, sr_apiKey = ''key'',
      sr_payload = running_payload 7 900 5\<rparr>"

definition running_tick :: tick_request where
  "running_tick =
     \<lparr>tk_fetched = Inr (Some (running_payload 7 900 8)),
      tk_server = one_page_server (report_of [] None)
        [feed_item 1060 ''n3'' ''B used 500 faction points'',
         feed_item 1050 ''n2'' ''A used one of the faction's Xanax items'',
         feed_item 950 ''n1'' ''A used one of the faction's Xanax items''],
      tk_now = 1120, tk_now_saved = 1121\<rparr>"

definition closing_tick :: tick_request where
  "closing_tick =
     \<lparr>tk_fetched = Inr None,
      tk_server = one_page_server (report_of [] None) [],
      tk_now = 1240, tk_now_saved = 1241\<rparr>"

subsection \<open>Orders used in the proofs\<close>

text \<open>
  One consumption object is below another when every entry of the first has an entry
  in the second, under the same key, with counts at least as large. The counts of an
  aggregated batch are never negative.
\<close>

definition cons_le :: "(string, cons_entry) alist \<Rightarrow> (string, cons_entry) alist \<Rightarrow> bool" where
  "cons_le a b =
     (\<forall>k v. DAList.lookup a k = Some v \<longrightarrow>
        (\<exists>v'. DAList.lookup b k = Some v' \<and> c_xanax v \<le> c_xanax v' \<and> c_points v \<le> c_points v'))"

definition nonneg_xanax :: "(string, xanax_entry) alist \<Rightarrow> bool" where
  "nonneg_xanax xs = (\<forall>k e. DAList.lookup xs k = Some e \<longrightarrow> 0 \<le> x_count e)"

definition nonneg_points :: "(string, points_entry) alist \<Rightarrow> bool" where
  "nonneg_points ps = (\<forall>k e. DAList.lookup ps k = Some e \<longrightarrow> 0 \<le> p_amount e)"

subsection \<open>The persisted status after a sequence of syncs\<close>

definition status_after :: "builtins \<Rightarrow> sync_request list \<Rightarrow> db_state \<Rightarrow> int \<Rightarrow> chain_status option" where
  "status_after env requests db cid =
     (case run_syncs env requests db of
        None \<Rightarrow> None
      | Some db' \<Rightarrow> map_option status (getChain db' cid))"

definition end_after :: "builtins \<Rightarrow> sync_request list \<Rightarrow> db_state \<Rightarrow> int \<Rightarrow> int option option" where
  "end_after env requests db cid =
     (case run_syncs env requests db of
        None \<Rightarrow> None
      | Some db' \<Rightarrow> map_option chain_end (getChain db' cid))"

text \<open>
  Three syncs of chain 7, each finding an empty report and an empty feed: one driven
  by a payload without \<^verbatim>\<open>current\<close> and without \<^verbatim>\<open>end\<close> (synced at 1000), one driven by a
  payload in progress (synced at 1100), and one driven by a payload that ended at 990
  (synced at 1000).
\<close>

definition listed_sync :: sync_request where
  "listed_sync =
     \<lparr>sr_server = one_page_server (report_of [] None) [], sr_now = 1000, sr_now_saved = 1001,
      sr_apiKey = ''key'', sr_payload = ended_payload 7 900 None\<rparr>"

definition ended_sync :: sync_request where
  "ended_sync =
     \<lparr>sr_server = one_page_server (report_of [] None) [], sr_now = 1000, sr_now_saved = 1001,
      sr_apiKey = ''key'', sr_payload = ended_payload 7 900 (Some 990)\<rparr>"

definition running_sync :: sync_request where
  "running_sync =
     \<lparr>sr_server = one_page_server (report_of [] None) [], sr_now = 1100, sr_now_saved = 1101,
      sr_apiKey = ''key'', sr_payload = running_payload 7 900 5\<rparr>"

section \<open>Evaluation of the parser on the literal messages\<close>

lemma xanax_message_parse:
  "extractMemberIdAndName ''AJMC used one of the faction's Xanax items'' =
     Some \<lparr>member_id = ''AJMC'', member_name = ''AJMC''\<rparr>"
  "js_includes ''AJMC used one of the faction's Xanax items'' XANAX_PHRASE"
  "points_matches ''AJMC used one of the faction's Xanax items'' = []"
  by code_simp+

lemma points_message_parse:
  "extractMemberIdAndName ''<a href=\"profiles.php?XID=2405862\">AJMC</a> used 250000 faction points'' =
     Some \<lparr>member_id = ''2405862'', member_name = ''AJMC''\<rparr>"
  "\<not> js_includes ''<a href=\"profiles.php?XID=2405862\">AJMC</a> used 250000 faction points'' XANAX_PHRASE"
  "map parseInt (points_matches ''<a href=\"profiles.php?XID=2405862\">AJMC</a> used 250000 faction points'') = [250000]"
  by code_simp+

lemma hospital_message_parse:
  "extractMemberIdAndName ''AJMC went to the hospital'' =
     Some \<lparr>member_id = ''AJMC'', member_name = ''AJMC''\<rparr>"
  "\<not> js_includes ''AJMC went to the hospital'' XANAX_PHRASE"
  "points_matches ''AJMC went to the hospital'' = []"
  by code_simp+

lemma zero_points_message_parse:
  "extractMemberIdAndName ''AJMC used 0 faction points'' =
     Some \<lparr>member_id = ''AJMC'', member_name = ''AJMC''\<rparr>"
  "\<not> js_includes ''AJMC used 0 faction points'' XANAX_PHRASE"
  "map parseInt (points_matches ''AJMC used 0 faction points'') = [0]"
  by code_simp+

lemma literal_message_events:
  "item_events ''AJMC used one of the faction's Xanax items'' = [ItemUse ''AJMC'' ''AJMC'']"
  "item_events ''<a href=\"profiles.php?XID=2405862\">AJMC</a> used 250000 faction points'' =
     [CurrencySpend ''2405862'' 250000 ''AJMC'']"
  "item_events ''AJMC went to the hospital'' = []"
  by code_simp+

section \<open>The loop body on an item that is in range and new\<close>

lemma process_item_fresh:
  assumes "\<not> js_lt (to_number env (item_ts item)) chainStart"
    and "\<not> js_lt chainEnd (to_number env (item_ts item))"
    and "item_key env item \<notin> set (ex_processed st)"
  shows "process_item env chainStart chainEnd item st =
     (case extractMemberIdAndName (item_message item) of
        None \<Rightarrow> st\<lparr>ex_processed := ex_processed st @ [item_key env item]\<rparr>
      | Some m \<Rightarrow>
          st\<lparr>ex_processed := ex_processed st @ [item_key env item],
             ex_xanax := (if js_includes (item_message item) XANAX_PHRASE
                          then addXanax (member_id m) (member_name m) (ex_xanax st)
                          else ex_xanax st),
             ex_points := fold (\<lambda>ds. addPoints (member_id m) (parseInt ds) (member_name m))
                            (points_matches (item_message item)) (ex_points st)\<rparr>)"
  using assms by (simp add: process_item_def Let_def split: option.splits)

lemma fold_addPoints_map:
  "fold (\<lambda>ds. addPoints mid (parseInt ds) name) dss pts =
     fold (\<lambda>n. addPoints mid n name) (map parseInt dss) pts"
  by (simp add: fold_map comp_def)

section \<open>Parser cases\<close>

text \<open>
  Claim C3. For a feed item that is in range and whose key is not in the dedup set:
  the message \<^verbatim>\<open>AJMC used one of the faction's Xanax items\<close> yields exactly one
  item use, count 1, under the actor key \<^verbatim>\<open>AJMC\<close>, and no currency entry; the message
  with the profile link \<^verbatim>\<open>XID=2405862\<close> and \<^verbatim>\<open>used 250000 faction points\<close> yields
  exactly one currency entry under the key \<^verbatim>\<open>2405862\<close>, amount 250000, name \<^verbatim>\<open>AJMC\<close>,
  and no item use; \<^verbatim>\<open>AJMC went to the hospital\<close> yields nothing; and a currency match
  of quantity 0 is not recorded (\<^verbatim>\<open>addPoints\<close> with amount 0 changes nothing). In each
  case the item's key joins the dedup set. As calls of the aggregator: one item use
  for the first message, one currency spend for the second, none for the third.
\<close>

theorem parser_literal_cases:
  assumes "\<not> js_lt (to_number env (item_ts item)) chainStart"
    and "\<not> js_lt chainEnd (to_number env (item_ts item))"
    and "item_key env item \<notin> set processedIds"
  shows "(item_message item = ''AJMC used one of the faction's Xanax items'' \<longrightarrow>
            extractConsumption env [item] chainStart chainEnd processedIds =
              \<lparr>ex_xanax = DAList.update ''AJMC'' \<lparr>x_count = 1, x_name = ''AJMC''\<rparr> DAList.empty,
               ex_points = DAList.empty,
               ex_processed = processedIds @ [item_key env item]\<rparr>)
       \<and> (item_message item = ''<a href=\"profiles.php?XID=2405862\">AJMC</a> used 250000 faction points'' \<longrightarrow>
            extractConsumption env [item] chainStart chainEnd processedIds =
              \<lparr>ex_xanax = DAList.empty,
               ex_points = DAList.update ''2405862'' \<lparr>p_amount = 250000, p_name = ''AJMC''\<rparr> DAList.empty,
               ex_processed = processedIds @ [item_key env item]\<rparr>)
       \<and> (item_message item = ''AJMC went to the hospital'' \<longrightarrow>
            extractConsumption env [item] chainStart chainEnd processedIds =
              \<lparr>ex_xanax = DAList.empty, ex_points = DAList.empty,
               ex_processed = processedIds @ [item_key env item]\<rparr>)
       \<and> (item_message item = ''AJMC used 0 faction points'' \<longrightarrow>
            extractConsumption env [item] chainStart chainEnd processedIds =
              \<lparr>ex_xanax = DAList.empty, ex_points = DAList.empty,
               ex_processed = processedIds @ [item_key env item]\<rparr>)
       \<and> (\<forall>mid name points. addPoints mid 0 name points = points)
       \<and> item_events ''AJMC used one of the faction's Xanax items'' = [ItemUse ''AJMC'' ''AJMC'']
       \<and> item_events ''<a href=\"profiles.php?XID=2405862\">AJMC</a> used 250000 faction points'' =
           [CurrencySpend ''2405862'' 250000 ''AJMC'']
       \<and> item_events ''AJMC went to the hospital'' = []"
proof -
  have 1: "item_message item = ''AJMC used one of the faction's Xanax items'' \<longrightarrow>
            extractConsumption env [item] chainStart chainEnd processedIds =
              \<lparr>ex_xanax = DAList.update ''AJMC'' \<lparr>x_count = 1, x_name = ''AJMC''\<rparr> DAList.empty,
               ex_points = DAList.empty,
               ex_processed = processedIds @ [item_key env item]\<rparr>"
    using assms
    by (simp add: extractConsumption_def process_item_fresh xanax_message_parse addXanax_def
        del: points_matches.simps)
  have 2: "item_message item = ''<a href=\"profiles.php?XID=2405862\">AJMC</a> used 250000 faction points'' \<longrightarrow>
            extractConsumption env [item] chainStart chainEnd processedIds =
              \<lparr>ex_xanax = DAList.empty,
               ex_points = DAList.update ''2405862'' \<lparr>p_amount = 250000, p_name = ''AJMC''\<rparr> DAList.empty,
               ex_processed = processedIds @ [item_key env item]\<rparr>"
    using assms
    by (simp add: extractConsumption_def process_item_fresh points_message_parse fold_addPoints_map
        addPoints_def del: points_matches.simps)
  have 3: "item_message item = ''AJMC went to the hospital'' \<longrightarrow>
            extractConsumption env [item] chainStart chainEnd processedIds =
              \<lparr>ex_xanax = DAList.empty, ex_points = DAList.empty,
               ex_processed = processedIds @ [item_key env item]\<rparr>"
    using assms
    by (simp add: extractConsumption_def process_item_fresh hospital_message_parse
        del: points_matches.simps)
  have 4: "item_message item = ''AJMC used 0 faction points'' \<longrightarrow>
            extractConsumption env [item] chainStart chainEnd processedIds =
              \<lparr>ex_xanax = DAList.empty, ex_points = DAList.empty,
               ex_processed = processedIds @ [item_key env item]\<rparr>"
    using assms
    by (simp add: extractConsumption_def process_item_fresh zero_points_message_parse
        fold_addPoints_map addPoints_def del: points_matches.simps)
  have 5: "\<forall>mid name points. addPoints mid 0 name points = points"
    by (simp add: addPoints_def)
  from 1 2 3 4 5 literal_message_events show ?thesis by blast
qed

lemma feed_item_simps:
  "to_number env (item_ts (feed_item t k msg)) = Some t"
  "item_key env (feed_item t k msg) = JStr k"
  "item_message (feed_item t k msg) = msg"
  by (simp_all add: feed_item_def item_ts_def item_key_def item_message_def nullish_def to_number_def)

theorem parser_literal_cases_witness:
  "extractConsumption plain_env [feed_item 50 ''n1'' ''AJMC used one of the faction's Xanax items'']
       (Some 0) (Some 100) [] =
     \<lparr>ex_xanax = DAList.update ''AJMC'' \<lparr>x_count = 1, x_name = ''AJMC''\<rparr> DAList.empty,
      ex_points = DAList.empty, ex_processed = [JStr ''n1'']\<rparr>
   \<and> extractConsumption plain_env
       [feed_item 50 ''n2'' ''<a href=\"profiles.php?XID=2405862\">AJMC</a> used 250000 faction points'']
       (Some 0) (Some 100) [] =
     \<lparr>ex_xanax = DAList.empty,
      ex_points = DAList.update ''2405862'' \<lparr>p_amount = 250000, p_name = ''AJMC''\<rparr> DAList.empty,
      ex_processed = [JStr ''n2'']\<rparr>
   \<and> extractConsumption plain_env [feed_item 50 ''n3'' ''AJMC went to the hospital'']
       (Some 0) (Some 100) [] =
     \<lparr>ex_xanax = DAList.empty, ex_points = DAList.empty, ex_processed = [JStr ''n3'']\<rparr>
   \<and> extractConsumption plain_env [feed_item 50 ''n4'' ''AJMC used 0 faction points'']
       (Some 0) (Some 100) [] =
     \<lparr>ex_xanax = DAList.empty, ex_points = DAList.empty, ex_processed = [JStr ''n4'']\<rparr>"
  using parser_literal_cases [of plain_env "feed_item 50 ''n1'' ''AJMC used one of the faction's Xanax items''" "Some 0" "Some 100" "[]"]
    parser_literal_cases [of plain_env "feed_item 50 ''n2'' ''<a href=\"profiles.php?XID=2405862\">AJMC</a> used 250000 faction points''" "Some 0" "Some 100" "[]"]
    parser_literal_cases [of plain_env "feed_item 50 ''n3'' ''AJMC went to the hospital''" "Some 0" "Some 100" "[]"]
    parser_literal_cases [of plain_env "feed_item 50 ''n4'' ''AJMC used 0 faction points''" "Some 0" "Some 100" "[]"]
  by (simp add: feed_item_simps js_lt_def)

section \<open>The dedup set\<close>

lemma process_item_seen:
  "item_key env item \<in> set (ex_processed st) \<Longrightarrow> process_item env cs ce item st = st"
  by (simp add: process_item_def Let_def)

lemma process_item_out_of_range:
  "js_lt (to_number env (item_ts item)) cs \<or> js_lt ce (to_number env (item_ts item))
     \<Longrightarrow> process_item env cs ce item st = st"
  by (auto simp: process_item_def Let_def)

lemma process_item_processed:
  "ex_processed (process_item env cs ce item st) =
     (if js_lt (to_number env (item_ts item)) cs \<or> js_lt ce (to_number env (item_ts item))
         \<or> item_key env item \<in> set (ex_processed st)
      then ex_processed st else ex_processed st @ [item_key env item])"
  by (simp add: process_item_def Let_def split: option.splits)

lemma fold_process_mono:
  "set (ex_processed st) \<subseteq> set (ex_processed (fold (process_item env cs ce) items st))"
proof (induction items arbitrary: st)
  case Nil
  show ?case by simp
next
  case (Cons item items)
  have "set (ex_processed st) \<subseteq> set (ex_processed (process_item env cs ce item st))"
    by (auto simp: process_item_processed)
  also have "\<dots> \<subseteq> set (ex_processed (fold (process_item env cs ce) items (process_item env cs ce item st)))"
    by (rule Cons.IH)
  finally show ?case by simp
qed

lemma fold_process_marks:
  assumes "item \<in> set items"
    and "\<not> js_lt (to_number env (item_ts item)) cs"
    and "\<not> js_lt ce (to_number env (item_ts item))"
  shows "item_key env item \<in> set (ex_processed (fold (process_item env cs ce) items st))"
  using assms(1)
proof (induction items arbitrary: st)
  case Nil
  then show ?case by simp
next
  case (Cons a items)
  show ?case
  proof (cases "a = item")
    case True
    have "item_key env item \<in> set (ex_processed (process_item env cs ce item st))"
      using assms(2,3) by (simp add: process_item_processed)
    then show ?thesis
      using True fold_process_mono [of "process_item env cs ce item st" env cs ce items] by auto
  next
    case False
    with Cons.prems have "item \<in> set items" by simp
    then show ?thesis using Cons.IH by simp
  qed
qed

lemma fold_process_all_seen:
  assumes "\<And>item. item \<in> set items \<Longrightarrow>
             js_lt (to_number env (item_ts item)) cs \<or> js_lt ce (to_number env (item_ts item))
             \<or> item_key env item \<in> set (ex_processed st)"
  shows "fold (process_item env cs ce) items st = st"
  using assms
proof (induction items)
  case Nil
  show ?case by simp
next
  case (Cons a items)
  have "process_item env cs ce a st = st"
    using Cons.prems [of a] process_item_seen process_item_out_of_range by fastforce
  then show ?case using Cons by simp
qed

lemma fold_process_filter:
  assumes "set P \<subseteq> set (ex_processed st)"
  shows "fold (process_item env cs ce) (filter (\<lambda>item. item_key env item \<notin> set P) items) st =
         fold (process_item env cs ce) items st"
  using assms
proof (induction items arbitrary: st)
  case Nil
  show ?case by simp
next
  case (Cons a items)
  have sub: "set P \<subseteq> set (ex_processed (process_item env cs ce a st))"
    using Cons.prems by (auto simp: process_item_processed)
  show ?case
  proof (cases "item_key env a \<in> set P")
    case True
    with Cons.prems have "process_item env cs ce a st = st"
      by (auto intro: process_item_seen)
    with True Cons show ?thesis by simp
  next
    case False
    then show ?thesis using Cons.IH [OF sub] by simp
  qed
qed

lemma set_new_Set: "set (new_Set xs) = set xs"
proof -
  have "set (fold set_add xs acc) = set xs \<union> set acc" for acc :: "'a list"
    by (induction xs arbitrary: acc) (auto simp: set_add_def)
  then show ?thesis by (simp add: new_Set_def)
qed

lemma mergeConsumption_empty: "mergeConsumption chain DAList.empty DAList.empty = chain"
  by (simp add: mergeConsumption_def empty.rep_eq)

lemma second_pass_empty:
  assumes "set (ex_processed (extractConsumption env items cs ce P)) \<subseteq> set Q"
  shows "extractConsumption env items cs ce Q =
           \<lparr>ex_xanax = DAList.empty, ex_points = DAList.empty, ex_processed = Q\<rparr>"
  unfolding extractConsumption_def
proof (rule fold_process_all_seen)
  fix item assume "item \<in> set items"
  then show "js_lt (to_number env (item_ts item)) cs \<or> js_lt ce (to_number env (item_ts item))
             \<or> item_key env item \<in> set (ex_processed \<lparr>ex_xanax = DAList.empty, ex_points = DAList.empty, ex_processed = Q\<rparr>)"
    using fold_process_marks [of item items env cs ce
        "\<lparr>ex_xanax = DAList.empty, ex_points = DAList.empty, ex_processed = P\<rparr>"] assms
    by (auto simp: extractConsumption_def)
qed

text \<open>
  Claim C1. Dedup idempotence. For every list of feed items, every pair of bounds and
  every dedup set: a second pass of \<^verbatim>\<open>extractConsumption\<close> over the same items, with the
  dedup set the first pass produced (as it is, or rebuilt by \<^verbatim>\<open>new Set\<close> from the
  persisted array), yields two empty objects and leaves the set as it is; merging that
  result leaves the consumption merged after the first pass unchanged; and an item
  whose key is in the dedup set contributes nothing: removing such items from the
  input changes neither the result nor the final set.
\<close>

theorem dedup_idempotent:
  "extractConsumption env items chainStart chainEnd
       (ex_processed (extractConsumption env items chainStart chainEnd processedIds)) =
     \<lparr>ex_xanax = DAList.empty, ex_points = DAList.empty,
      ex_processed = ex_processed (extractConsumption env items chainStart chainEnd processedIds)\<rparr>
   \<and> extractConsumption env items chainStart chainEnd
       (new_Set (ex_processed (extractConsumption env items chainStart chainEnd processedIds))) =
     \<lparr>ex_xanax = DAList.empty, ex_points = DAList.empty,
      ex_processed = new_Set (ex_processed (extractConsumption env items chainStart chainEnd processedIds))\<rparr>
   \<and> mergeConsumption
        (mergeConsumption chain
           (ex_xanax (extractConsumption env items chainStart chainEnd processedIds))
           (ex_points (extractConsumption env items chainStart chainEnd processedIds)))
        (ex_xanax (extractConsumption env items chainStart chainEnd
           (ex_processed (extractConsumption env items chainStart chainEnd processedIds))))
        (ex_points (extractConsumption env items chainStart chainEnd
           (ex_processed (extractConsumption env items chainStart chainEnd processedIds)))) =
      mergeConsumption chain
        (ex_xanax (extractConsumption env items chainStart chainEnd processedIds))
        (ex_points (extractConsumption env items chainStart chainEnd processedIds))
   \<and> extractConsumption env (filter (\<lambda>item. item_key env item \<notin> set processedIds) items)
        chainStart chainEnd processedIds =
      extractConsumption env items chainStart chainEnd processedIds"
proof -
  let ?first = "extractConsumption env items chainStart chainEnd processedIds"
  have a: "extractConsumption env items chainStart chainEnd (ex_processed ?first) =
     \<lparr>ex_xanax = DAList.empty, ex_points = DAList.empty, ex_processed = ex_processed ?first\<rparr>"
    by (rule second_pass_empty [where P = processedIds]) simp
  have b: "extractConsumption env items chainStart chainEnd (new_Set (ex_processed ?first)) =
     \<lparr>ex_xanax = DAList.empty, ex_points = DAList.empty, ex_processed = new_Set (ex_processed ?first)\<rparr>"
    by (rule second_pass_empty [where P = processedIds]) (simp add: set_new_Set)
  have c: "extractConsumption env (filter (\<lambda>item. item_key env item \<notin> set processedIds) items)
        chainStart chainEnd processedIds = ?first"
    unfolding extractConsumption_def by (rule fold_process_filter) simp
  show ?thesis
    by (simp add: a b c mergeConsumption_empty)
qed

section \<open>Pagination\<close>

lemma scan_page_fst:
  "fst (scan_page env cs items) = takeWhile (\<lambda>item. \<not> before_start env cs item) items"
  by (induction items) (auto split: prod.splits)

lemma scan_page_snd: "snd (scan_page env cs items) = list_ex (before_start env cs) items"
  by (induction items) (auto split: prod.splits)

lemma collect_news_pages:
  assumes "serves env server apiKey chainStart before pages"
  shows "collect_news env server apiKey chainStart before allNews requests =
           Some (Inr (allNews @ pages_news env chainStart pages),
                 requests @ pages_requests env chainStart before pages)"
  using assms
proof (induction pages arbitrary: before allNews requests)
  case Nil
  then show ?case by simp
next
  case (Cons pg pages)
  from Cons.prems have fetch: "fetchFactionNews server apiKey before = Inr pg"
    by simp
  show ?case
  proof (cases "page_stops env chainStart pg")
    case True
    then show ?thesis
      by (subst collect_news.simps)
         (simp add: fetch page_stops_def scan_page_fst scan_page_snd)
  next
    case False
    with Cons.prems have rest: "serves env server apiKey chainStart (page_prev pg) pages"
      by simp
    have "collect_news env server apiKey chainStart before allNews requests =
          collect_news env server apiKey chainStart (page_prev pg)
            (allNews @ takeWhile (\<lambda>item. \<not> before_start env chainStart item) (page_items pg))
            (requests @ [before])"
      using False
      by (subst collect_news.simps)
         (simp add: fetch page_stops_def scan_page_fst scan_page_snd)
    also have "\<dots> = Some (Inr ((allNews @ takeWhile (\<lambda>item. \<not> before_start env chainStart item) (page_items pg))
                              @ pages_news env chainStart pages),
                         (requests @ [before]) @ pages_requests env chainStart (page_prev pg) pages)"
      by (rule Cons.IH [OF rest])
    finally show ?thesis using False by simp
  qed
qed

text \<open>
  Claim C2. Pagination stop condition. When the server answers the first request
  (no cursor) and then each page's cursor with the next page of a sequence, the
  paginator collects, of each page, the items that precede the first item older than
  the start bound; it takes no page after one that holds such an item or carries no
  cursor to the previous page; and it issues exactly one request per page taken.
  \<^verbatim>\<open>fetchAllFactionNews\<close> hands exactly these items to \<^verbatim>\<open>extractConsumption\<close>. The
  witness is the case of pages 100-90, 89-80, 79-70 and start bound 85: all of the
  first page, the items 89-85 of the second, and two requests, none for the third.
\<close>

theorem pagination_stop:
  assumes "serves env server apiKey chainStart None pages"
  shows "collect_news env server apiKey chainStart None [] [] =
           Some (Inr (pages_news env chainStart pages),
                 pages_requests env chainStart None pages)
       \<and> fetchAllFactionNews env server apiKey chainStart chainEnd processedIds =
           Some (Inr (extractConsumption env (pages_news env chainStart pages)
                        chainStart chainEnd processedIds))"
  using collect_news_pages [OF assms, of "[]" "[]"]
  by (simp add: fetchAllFactionNews_def)

lemma before_start_feed_item: "before_start env (Some s) (feed_item t k msg) = (t < s)"
  by (simp add: before_start_def js_lt_def feed_item_simps) (simp add: feed_item_def item_ts_def nullish_def)

theorem pagination_stop_witness:
  "collect_news plain_env three_page_server ''key'' (Some 85) None [] [] =
     Some (Inr (map (\<lambda>t. feed_item t (string_of_int t) ''chatter'')
                 [100, 99, 98, 97, 96, 95, 94, 93, 92, 91, 90, 89, 88, 87, 86, 85]),
           [None, Some ''p2''])"
  using pagination_stop [of plain_env three_page_server "''key''" "Some 85"
      "[ts_page [100, 99, 98, 97, 96, 95, 94, 93, 92, 91, 90] (Some ''p2''),
        ts_page [89, 88, 87, 86, 85, 84, 83, 82, 81, 80] (Some ''p3''),
        ts_page [79, 78, 77, 76, 75, 74, 73, 72, 71, 70] None]"]
  by (simp add: three_page_server_def ts_page_def page_stops_def no_cursor_def before_start_feed_item)

section \<open>The sync, step by step\<close>

lemma sync_unfold:
  "loadAndSyncChain env server now now_saved apiKey currentChain db =
     (case payload_chainId currentChain of
        None \<Rightarrow> Some (Inl DataError, db)
      | Some cid \<Rightarrow>
          (case fetchChainReport server cid apiKey of
             Inl err \<Rightarrow> Some (Inl (Rejected err), db)
           | Inr report \<Rightarrow>
               (case sync_news env server now apiKey currentChain db cid of
                  None \<Rightarrow> None
                | Some (Inl err) \<Rightarrow> Some (Inl (Rejected err), db)
                | Some (Inr cons) \<Rightarrow>
                    Some (Inr (apply_fetched (loaded_chain db cid now currentChain) report cons
                                 currentChain (payload_end now currentChain)),
                          saveChain (apply_fetched (loaded_chain db cid now currentChain) report cons
                                       currentChain (payload_end now currentChain))
                            (setConfig ''lastSyncTimestamp'' (JNum now_saved) db)))))"
  by (simp add: loadAndSyncChain_def sync_news_def Let_def split: option.splits sum.splits)

lemma sync_success:
  assumes "loadAndSyncChain env server now now_saved apiKey currentChain db = Some (Inr chain', db')"
  obtains cid report cons where
    "payload_chainId currentChain = Some cid"
    "fetchChainReport server cid apiKey = Inr report"
    "sync_news env server now apiKey currentChain db cid = Some (Inr cons)"
    "chain' = apply_fetched (loaded_chain db cid now currentChain) report cons currentChain
                (payload_end now currentChain)"
    "db' = saveChain chain' (setConfig ''lastSyncTimestamp'' (JNum now_saved) db)"
  using assms unfolding sync_unfold
  by (auto split: option.splits sum.splits)

lemma apply_fetched_fields:
  "hits (apply_fetched chain report cons cc e) = report_hits (report_attackers report)"
  "consumption (apply_fetched chain report cons cc e) =
     consumption (mergeConsumption chain (ex_xanax cons) (ex_points cons))"
  "processedNewsIds (apply_fetched chain report cons cc e) = ex_processed cons"
  "chainId (apply_fetched chain report cons cc e) = chainId chain"
  "chain_start (apply_fetched chain report cons cc e) = chain_start chain"
  "chain_end (apply_fetched chain report cons cc e) =
     (if truthy (cc_current cc) then None
      else Some (case r_end report of Some x \<Rightarrow> x | None \<Rightarrow> e))"
  "status (apply_fetched chain report cons cc e) =
     (if truthy (chain_end (apply_fetched chain report cons cc e)) then Finished else Active)"
  by (simp_all add: apply_fetched_def updateTotals_def mergeConsumption_def Let_def)


lemma one_page_news:
  "fetchAllFactionNews env (one_page_server report items) apiKey cs ce P =
     Some (Inr (extractConsumption env
                  (takeWhile (\<lambda>item. \<not> before_start env cs item) items) cs ce P))"
proof -
  let ?pg = "\<lparr>page_items = items, page_prev = None\<rparr>"
  have "serves env (one_page_server report items) apiKey cs None [?pg]"
    by (simp add: one_page_server_def page_stops_def no_cursor_def)
  from collect_news_pages [OF this, of "[]" "[]"] show ?thesis
    by (simp add: fetchAllFactionNews_def page_stops_def no_cursor_def)
qed

lemma one_page_sync:
  assumes "payload_chainId cc = Some cid"
  shows "loadAndSyncChain env (one_page_server report items) now now_saved apiKey cc db =
     Some (Inr (apply_fetched (loaded_chain db cid now cc) report
                  (extractConsumption env
                     (takeWhile (\<lambda>item. \<not> before_start env (payload_start cc) item) items)
                     (payload_start cc) (Some (payload_end now cc))
                     (new_Set (processedNewsIds (loaded_chain db cid now cc))))
                  cc (payload_end now cc)),
           saveChain (apply_fetched (loaded_chain db cid now cc) report
                  (extractConsumption env
                     (takeWhile (\<lambda>item. \<not> before_start env (payload_start cc) item) items)
                     (payload_start cc) (Some (payload_end now cc))
                     (new_Set (processedNewsIds (loaded_chain db cid now cc))))
                  cc (payload_end now cc))
             (setConfig ''lastSyncTimestamp'' (JNum now_saved) db))"
proof -
  have "fetchChainReport (one_page_server report items) cid apiKey = Inr report"
    by (simp add: one_page_server_def)
  then show ?thesis
    unfolding sync_unfold by (simp add: assms sync_news_def one_page_news)
qed

lemma getChain_chainId: "getChain db cid = Some c \<Longrightarrow> chainId c = cid"
  by (auto simp: getChain_def find_Some_iff)

lemma loaded_chain_id: "chainId (loaded_chain db cid now cc) = cid"
  by (auto simp: loaded_chain_def seeded_chain_def dest: getChain_chainId split: option.splits)

lemma getChain_saveChain:
  "getChain (saveChain c db) k = (if k = chainId c then Some c else getChain db k)"
proof -
  have "find (\<lambda>x. chainId x = k) (filter (\<lambda>x. chainId x \<noteq> chainId c) xs) = find (\<lambda>x. chainId x = k) xs"
    if "k \<noteq> chainId c" for xs
    using that by (induction xs) auto
  then show ?thesis by (auto simp: getChain_def saveChain_def)
qed

lemma getChain_setConfig: "getChain (setConfig k v db) cid = getChain db cid"
  by (simp add: getChain_def setConfig_def)

section \<open>Hits\<close>

lemma find_snoc:
  "find P (xs @ [x]) = (case find P xs of Some y \<Rightarrow> Some y | None \<Rightarrow> (if P x then Some x else None))"
  by (induction xs) auto

lemma fold_hits_lookup:
  "DAList.lookup (fold (\<lambda>a h. DAList.update (attacker_key a) (attacker_entry a) h) attackers h0) k =
     (case find (\<lambda>a. attacker_key a = k) (rev attackers) of
        Some a \<Rightarrow> Some (attacker_entry a)
      | None \<Rightarrow> DAList.lookup h0 k)"
proof (induction attackers arbitrary: h0)
  case Nil
  show ?case by simp
next
  case (Cons a attackers)
  show ?case
    by (simp add: Cons.IH find_snoc lookup_update split: option.splits)
qed

lemma report_hits_lookup:
  "DAList.lookup (report_hits attackers) k =
     map_option attacker_entry (find (\<lambda>a. attacker_key a = k) (rev attackers))"
  by (simp add: report_hits_def fold_hits_lookup split: option.splits)

text \<open>
  Claim C5. Hits replacement. After a sync that succeeds, the \<^verbatim>\<open>hits\<close> object of the
  record (the one returned and the one persisted under the chain id) is the object
  built from the attackers of the report just fetched, whatever the record held
  before: the entry under a key is the entry of the last attacker of the report with
  that key (id coerced to a string, counts defaulted to 0, name falling back to the
  key), and a key that no attacker of the report has is absent. The witness runs two
  syncs: actor A at 10 hits, then at 15, leaves 15; the attacker of the first report
  known only by the numeric id 42 is entered under the key \<^verbatim>\<open>42\<close> with counts 0 and
  the key as name, and is gone after the second.
\<close>

theorem hits_replaced:
  assumes "loadAndSyncChain env server now now_saved apiKey currentChain db = Some (Inr chain', db')"
    and "payload_chainId currentChain = Some cid"
    and "fetchChainReport server cid apiKey = Inr report"
  shows "hits chain' = report_hits (report_attackers report)
       \<and> (\<forall>k. DAList.lookup (hits chain') k =
                map_option attacker_entry
                  (find (\<lambda>a. attacker_key a = k) (rev (report_attackers report))))
       \<and> getChain db' cid = Some chain'"
proof -
  from assms(1) obtain cid' report' cons where
    c: "payload_chainId currentChain = Some cid'"
    and r: "fetchChainReport server cid' apiKey = Inr report'"
    and ch: "chain' = apply_fetched (loaded_chain db cid' now currentChain) report' cons currentChain
                (payload_end now currentChain)"
    and d: "db' = saveChain chain' (setConfig ''lastSyncTimestamp'' (JNum now_saved) db)"
    by (rule sync_success)
  from c assms(2) have [simp]: "cid' = cid" by simp
  from r assms(3) have [simp]: "report' = report" by simp
  have h: "hits chain' = report_hits (report_attackers report)"
    by (simp add: ch apply_fetched_fields)
  have "chainId (loaded_chain db cid now currentChain) = cid"
    by (rule loaded_chain_id)
  then have "chainId chain' = cid"
    by (simp add: ch apply_fetched_fields)
  then have g: "getChain db' cid = Some chain'"
    by (simp add: d getChain_saveChain getChain_setConfig)
  show ?thesis
    using h g by (simp add: report_hits_lookup)
qed


lemma running_payload_simps:
  "payload_chainId (running_payload cid start n) = Some cid"
  "payload_start (running_payload cid start n) = Some start"
  "payload_isActive (running_payload cid start n)"
  "payload_end now (running_payload cid start n) = now"
  "cc_current (running_payload cid start n) = Some n"
  by (simp_all add: running_payload_def payload_chainId_def payload_start_def payload_isActive_def
      payload_end_def nullish_def)

lemma report_attacker_simps:
  "attacker_key (report_attacker k n r) = k"
  "attacker_entry (report_attacker k n r) = \<lparr>h_hits = n, h_respect = r, h_name = k\<rparr>"
  by (simp_all add: report_attacker_def attacker_key_def attacker_entry_def js_String_def nullish_def)

lemma bare_attacker_42:
  "attacker_key (bare_attacker 42) = ''42''"
  "attacker_entry (bare_attacker 42) = \<lparr>h_hits = 0, h_respect = 0, h_name = ''42''\<rparr>"
  by code_simp+

lemma report_of_simps:
  "report_attackers (report_of attackers ended) = attackers"
  "r_end (report_of attackers ended) = ended"
  by (simp_all add: report_of_def report_attackers_def nullish_def)

lemma one_page_report: "fetchChainReport (one_page_server report items) cid apiKey = Inr report"
  by (simp add: one_page_server_def)

theorem hits_replaced_witness:
  "\<exists>c1 db1 c2 db2.
     loadAndSyncChain plain_env
       (one_page_server (report_of [report_attacker ''A'' 10 100, bare_attacker 42] None) [])
       1000 1001 ''key'' (running_payload 7 900 13) empty_db = Some (Inr c1, db1)
   \<and> loadAndSyncChain plain_env
       (one_page_server (report_of [report_attacker ''A'' 15 150] None) [])
       1100 1101 ''key'' (running_payload 7 900 15) db1 = Some (Inr c2, db2)
   \<and> DAList.lookup (hits c1) ''A'' = Some \<lparr>h_hits = 10, h_respect = 100, h_name = ''A''\<rparr>
   \<and> DAList.lookup (hits c1) ''42'' = Some \<lparr>h_hits = 0, h_respect = 0, h_name = ''42''\<rparr>
   \<and> DAList.lookup (hits c2) ''A'' = Some \<lparr>h_hits = 15, h_respect = 150, h_name = ''A''\<rparr>
   \<and> DAList.lookup (hits c2) ''42'' = None
   \<and> getChain db2 7 = Some c2"
proof -
  let ?r1 = "report_of [report_attacker ''A'' 10 100, bare_attacker 42] None"
  let ?r2 = "report_of [report_attacker ''A'' 15 150] None"
  obtain c1 db1 where s1: "loadAndSyncChain plain_env (one_page_server ?r1 []) 1000 1001 ''key''
       (running_payload 7 900 13) empty_db = Some (Inr c1, db1)"
    using one_page_sync [OF running_payload_simps(1)] by blast
  obtain c2 db2 where s2: "loadAndSyncChain plain_env (one_page_server ?r2 []) 1100 1101 ''key''
       (running_payload 7 900 15) db1 = Some (Inr c2, db2)"
    using one_page_sync [OF running_payload_simps(1)] by blast
  have h1: "DAList.lookup (hits c1) ''A'' = Some \<lparr>h_hits = 10, h_respect = 100, h_name = ''A''\<rparr>
          \<and> DAList.lookup (hits c1) ''42'' = Some \<lparr>h_hits = 0, h_respect = 0, h_name = ''42''\<rparr>"
    using hits_replaced [OF s1 running_payload_simps(1) one_page_report]
    by (simp add: report_hits_lookup report_of_simps report_attacker_simps bare_attacker_42)
  have h2: "DAList.lookup (hits c2) ''A'' = Some \<lparr>h_hits = 15, h_respect = 150, h_name = ''A''\<rparr>
          \<and> DAList.lookup (hits c2) ''42'' = None \<and> getChain db2 7 = Some c2"
    using hits_replaced [OF s2 running_payload_simps(1) one_page_report]
    by (simp add: report_hits_lookup report_of_simps report_attacker_simps bare_attacker_42)
  from s1 s2 h1 h2 show ?thesis by blast
qed

section \<open>Totals\<close>

lemma fold_hit_totals:
  "fold (\<lambda>m t. t\<lparr>t_hits := t_hits t + h_hits m, t_respect := t_respect t + h_respect m\<rparr>) ms t =
     t\<lparr>t_hits := t_hits t + sum_list (map h_hits ms),
       t_respect := t_respect t + sum_list (map h_respect ms)\<rparr>"
  by (induction ms arbitrary: t) (simp_all add: algebra_simps)

lemma fold_cons_totals:
  "fold (\<lambda>c t. t\<lparr>t_xanax := t_xanax t + c_xanax c, t_points := t_points t + c_points c\<rparr>) cs t =
     t\<lparr>t_xanax := t_xanax t + sum_list (map c_xanax cs),
       t_points := t_points t + sum_list (map c_points cs)\<rparr>"
  by (induction cs arbitrary: t) (simp_all add: algebra_simps)

lemma sum_list_entries:
  "sum_list (map (f \<circ> snd) (DAList.impl_of al)) = (\<Sum>e\<in>set (DAList.impl_of al). f (snd e))"
proof -
  have "distinct (DAList.impl_of al)"
    using impl_of_distinct [of al] by (rule distinct_map [THEN iffD1, THEN conjunct1])
  then show ?thesis
    by (simp add: sum_list_distinct_conv_sum_set comp_def)
qed

lemma updateTotals_totals:
  "totals (updateTotals chain) =
     \<lparr>t_hits = (\<Sum>e\<in>set (DAList.impl_of (hits chain)). h_hits (snd e)),
      t_respect = (\<Sum>e\<in>set (DAList.impl_of (hits chain)). h_respect (snd e)),
      t_xanax = (\<Sum>e\<in>set (DAList.impl_of (consumption chain)). c_xanax (snd e)),
      t_points = (\<Sum>e\<in>set (DAList.impl_of (consumption chain)). c_points (snd e))\<rparr>"
  by (simp add: updateTotals_def Let_def fold_hit_totals fold_cons_totals sum_list_entries)

lemma updateTotals_fields:
  "hits (updateTotals chain) = hits chain"
  "consumption (updateTotals chain) = consumption chain"
  by (simp_all add: updateTotals_def Let_def)

lemma apply_fetched_is_updateTotals:
  "\<exists>c. apply_fetched chain report cons cc e = updateTotals c"
  unfolding apply_fetched_def Let_def by blast

text \<open>
  Claim C7. Totals derivation. After every sync that succeeds, the \<^verbatim>\<open>totals\<close> of the
  record (returned and persisted) are the sums over its current entries:
  \<^verbatim>\<open>totals.hits\<close> and \<^verbatim>\<open>totals.respect\<close> over the entries of \<^verbatim>\<open>hits\<close>, \<^verbatim>\<open>totals.xanax\<close> and
  \<^verbatim>\<open>totals.points\<close> over the entries of \<^verbatim>\<open>consumption\<close>. The witness is a sync that
  leaves hits A: 5 hits, 50 respect and consumption A: 1 xanax, 1000 points; its
  totals are 5, 50, 1 and 1000.
\<close>

theorem totals_derived:
  assumes "loadAndSyncChain env server now now_saved apiKey currentChain db = Some (Inr chain', db')"
  shows "totals chain' =
     \<lparr>t_hits = (\<Sum>e\<in>set (DAList.impl_of (hits chain')). h_hits (snd e)),
      t_respect = (\<Sum>e\<in>set (DAList.impl_of (hits chain')). h_respect (snd e)),
      t_xanax = (\<Sum>e\<in>set (DAList.impl_of (consumption chain')). c_xanax (snd e)),
      t_points = (\<Sum>e\<in>set (DAList.impl_of (consumption chain')). c_points (snd e))\<rparr>
     \<and> getChain db' (chainId chain') = Some chain'"
proof -
  from assms obtain cid report cons where
    ch: "chain' = apply_fetched (loaded_chain db cid now currentChain) report cons currentChain
                (payload_end now currentChain)"
    and d: "db' = saveChain chain' (setConfig ''lastSyncTimestamp'' (JNum now_saved) db)"
    by (rule sync_success)
  obtain c where c: "chain' = updateTotals c"
    using apply_fetched_is_updateTotals ch by blast
  have "totals (updateTotals c) =
     \<lparr>t_hits = (\<Sum>e\<in>set (DAList.impl_of (hits (updateTotals c))). h_hits (snd e)),
      t_respect = (\<Sum>e\<in>set (DAList.impl_of (hits (updateTotals c))). h_respect (snd e)),
      t_xanax = (\<Sum>e\<in>set (DAList.impl_of (consumption (updateTotals c))). c_xanax (snd e)),
      t_points = (\<Sum>e\<in>set (DAList.impl_of (consumption (updateTotals c))). c_points (snd e))\<rparr>"
    by (simp only: updateTotals_fields updateTotals_totals)
  then show ?thesis
    by (simp add: c [symmetric] d getChain_saveChain)
qed

lemma one_actor_messages:
  "extractMemberIdAndName ''A used one of the faction's Xanax items'' =
     Some \<lparr>member_id = ''A'', member_name = ''A''\<rparr>"
  "js_includes ''A used one of the faction's Xanax items'' XANAX_PHRASE"
  "points_matches ''A used one of the faction's Xanax items'' = []"
  "extractMemberIdAndName ''A used 1000 faction points'' =
     Some \<lparr>member_id = ''A'', member_name = ''A''\<rparr>"
  "\<not> js_includes ''A used 1000 faction points'' XANAX_PHRASE"
  "map parseInt (points_matches ''A used 1000 faction points'') = [1000]"
  by code_simp+

lemma one_actor_extraction:
  "extractConsumption plain_env
     [feed_item 950 ''n1'' ''A used one of the faction's Xanax items'',
      feed_item 940 ''n2'' ''A used 1000 faction points''] (Some 900) (Some 1000) [] =
   \<lparr>ex_xanax = DAList.update ''A'' \<lparr>x_count = 1, x_name = ''A''\<rparr> DAList.empty,
    ex_points = DAList.update ''A'' \<lparr>p_amount = 1000, p_name = ''A''\<rparr> DAList.empty,
    ex_processed = [JStr ''n1'', JStr ''n2'']\<rparr>"
  by (simp add: extractConsumption_def process_item_fresh feed_item_simps js_lt_def
      one_actor_messages fold_addPoints_map addXanax_def addPoints_def
      del: points_matches.simps)


lemma loaded_chain_empty_db: "loaded_chain empty_db cid now cc = seeded_chain cid now cc"
  by (simp add: loaded_chain_def getChain_def empty_db_def)

lemma seeded_chain_fields:
  "consumption (seeded_chain cid now cc) = DAList.empty"
  "processedNewsIds (seeded_chain cid now cc) = []"
  "chainId (seeded_chain cid now cc) = cid"
  by (simp_all add: seeded_chain_def)

lemma new_Set_Nil: "new_Set [] = []"
  by (simp add: new_Set_def)

theorem totals_derived_witness:
  "\<exists>c db'.
     loadAndSyncChain plain_env
       (one_page_server (report_of [report_attacker ''A'' 5 50] None)
          [feed_item 950 ''n1'' ''A used one of the faction's Xanax items'',
           feed_item 940 ''n2'' ''A used 1000 faction points''])
       1000 1001 ''key'' (running_payload 7 900 5) empty_db = Some (Inr c, db')
   \<and> DAList.impl_of (hits c) = [(''A'', \<lparr>h_hits = 5, h_respect = 50, h_name = ''A''\<rparr>)]
   \<and> DAList.impl_of (consumption c) = [(''A'', \<lparr>c_xanax = 1, c_points = 1000, c_name = ''A''\<rparr>)]
   \<and> totals c = \<lparr>t_hits = 5, t_respect = 50, t_xanax = 1, t_points = 1000\<rparr>
   \<and> getChain db' 7 = Some c"
proof -
  let ?server = "one_page_server (report_of [report_attacker ''A'' 5 50] None)
          [feed_item 950 ''n1'' ''A used one of the faction's Xanax items'',
           feed_item 940 ''n2'' ''A used 1000 faction points'']"
  define c where "c = apply_fetched (seeded_chain 7 1000 (running_payload 7 900 5))
       (report_of [report_attacker ''A'' 5 50] None)
       \<lparr>ex_xanax = DAList.update ''A'' \<lparr>x_count = 1, x_name = ''A''\<rparr> DAList.empty,
        ex_points = DAList.update ''A'' \<lparr>p_amount = 1000, p_name = ''A''\<rparr> DAList.empty,
        ex_processed = [JStr ''n1'', JStr ''n2'']\<rparr>
       (running_payload 7 900 5) 1000"
  have s: "loadAndSyncChain plain_env ?server 1000 1001 ''key'' (running_payload 7 900 5) empty_db =
      Some (Inr c, saveChain c (setConfig ''lastSyncTimestamp'' (JNum 1001) empty_db))"
    by (simp add: one_page_sync [OF running_payload_simps(1)] running_payload_simps
        loaded_chain_empty_db seeded_chain_fields new_Set_Nil before_start_feed_item
        one_actor_extraction c_def)
  have h: "DAList.impl_of (hits c) = [(''A'', \<lparr>h_hits = 5, h_respect = 50, h_name = ''A''\<rparr>)]"
    by (simp add: c_def apply_fetched_fields report_of_simps report_hits_def report_attacker_simps
        update.rep_eq empty.rep_eq)
  have k: "DAList.impl_of (consumption c) = [(''A'', \<lparr>c_xanax = 1, c_points = 1000, c_name = ''A''\<rparr>)]"
    by (simp add: c_def apply_fetched_fields mergeConsumption_def seeded_chain_fields
        merge_xanax_def merge_points_def update.rep_eq empty.rep_eq lookup.rep_eq)
  have t: "totals c = \<lparr>t_hits = 5, t_respect = 50, t_xanax = 1, t_points = 1000\<rparr>
         \<and> getChain (saveChain c (setConfig ''lastSyncTimestamp'' (JNum 1001) empty_db)) (chainId c) = Some c"
    using totals_derived [OF s] by (simp add: h k)
  have "chainId c = 7"
    by (simp add: c_def apply_fetched_fields seeded_chain_fields)
  with s h k t show ?thesis by auto
qed

section \<open>Failure of a fetch\<close>

lemma failed_first_page:
  assumes "fetchFactionNews server apiKey None = Inl err"
  shows "fetchAllFactionNews env server apiKey cs ce P = Some (Inl err)"
proof -
  have "collect_news env server apiKey cs None [] [] = Some (Inl err, [None])"
    by (subst collect_news.simps) (simp add: assms)
  then show ?thesis by (simp add: fetchAllFactionNews_def)
qed

lemma single_page_news:
  assumes "fetchFactionNews server apiKey None = Inr pg" and "no_cursor (page_prev pg)"
  shows "fetchAllFactionNews env server apiKey cs ce P =
     Some (Inr (extractConsumption env
                  (takeWhile (\<lambda>item. \<not> before_start env cs item) (page_items pg)) cs ce P))"
proof -
  have "serves env server apiKey cs None [pg]"
    using assms by (simp add: page_stops_def)
  from collect_news_pages [OF this, of "[]" "[]"] show ?thesis
    using assms by (simp add: fetchAllFactionNews_def page_stops_def)
qed

text \<open>
  Claim C8. Sync atomicity on fetch failure. When the chain report fetch or the
  paginated news fetch of a sync fails, \<^verbatim>\<open>loadAndSyncChain\<close> rejects with the error of a
  failed fetch and the store is left exactly as it was: neither the config write nor
  \<^verbatim>\<open>saveChain\<close> has run, so the persisted record and its \<^verbatim>\<open>processedNewsIds\<close> are
  unchanged. Conversely, a sync that returns with a changed store had both fetches
  succeed and resolves to the merged record.
\<close>

theorem failed_fetch_persists_nothing:
  "(payload_chainId currentChain = Some cid \<and>
      (fetchChainReport server cid apiKey = Inl e1 \<or>
       sync_news env server now apiKey currentChain db cid = Some (Inl e2))
     \<longrightarrow> (\<exists>e. (fetchChainReport server cid apiKey = Inl e \<or>
               sync_news env server now apiKey currentChain db cid = Some (Inl e))
              \<and> loadAndSyncChain env server now now_saved apiKey currentChain db =
                  Some (Inl (Rejected e), db)))
   \<and> (loadAndSyncChain env server now now_saved apiKey currentChain db = Some (res, db') \<and> db' \<noteq> db
     \<longrightarrow> (\<exists>cid' report cons.
            payload_chainId currentChain = Some cid'
          \<and> fetchChainReport server cid' apiKey = Inr report
          \<and> sync_news env server now apiKey currentChain db cid' = Some (Inr cons)
          \<and> res = Inr (apply_fetched (loaded_chain db cid' now currentChain) report cons
                         currentChain (payload_end now currentChain))))"
proof (intro conjI impI)
  assume a: "payload_chainId currentChain = Some cid \<and>
      (fetchChainReport server cid apiKey = Inl e1 \<or>
       sync_news env server now apiKey currentChain db cid = Some (Inl e2))"
  show "\<exists>e. (fetchChainReport server cid apiKey = Inl e \<or>
               sync_news env server now apiKey currentChain db cid = Some (Inl e))
              \<and> loadAndSyncChain env server now now_saved apiKey currentChain db =
                  Some (Inl (Rejected e), db)"
  proof (cases "fetchChainReport server cid apiKey")
    case (Inl e)
    then show ?thesis using a by (auto simp: sync_unfold)
  next
    case (Inr report)
    with a have "sync_news env server now apiKey currentChain db cid = Some (Inl e2)" by simp
    then show ?thesis using a Inr by (auto simp: sync_unfold)
  qed
next
  assume b: "loadAndSyncChain env server now now_saved apiKey currentChain db = Some (res, db') \<and> db' \<noteq> db"
  then show "\<exists>cid' report cons.
            payload_chainId currentChain = Some cid'
          \<and> fetchChainReport server cid' apiKey = Inr report
          \<and> sync_news env server now apiKey currentChain db cid' = Some (Inr cons)
          \<and> res = Inr (apply_fetched (loaded_chain db cid' now currentChain) report cons
                         currentChain (payload_end now currentChain))"
    unfolding sync_unfold by (auto split: option.splits sum.splits)
qed

theorem failed_fetch_persists_nothing_witness:
  "loadAndSyncChain plain_env (failing_report_server (ApiError ''network'' False) [])
       1000 1001 ''key'' (running_payload 7 900 5)
       (saveChain (seeded_chain 7 950 (running_payload 7 900 3)) empty_db) =
     Some (Inl (Rejected (ApiError ''network'' False)),
           saveChain (seeded_chain 7 950 (running_payload 7 900 3)) empty_db)
   \<and> loadAndSyncChain plain_env (failing_news_server (report_of [] None) (ApiError ''Incorrect key'' True))
       1000 1001 ''key'' (running_payload 7 900 5)
       (saveChain (seeded_chain 7 950 (running_payload 7 900 3)) empty_db) =
     Some (Inl (Rejected (ApiError ''Incorrect key'' True)),
           saveChain (seeded_chain 7 950 (running_payload 7 900 3)) empty_db)
   \<and> (\<exists>c db'. loadAndSyncChain plain_env (one_page_server (report_of [] None) [])
       1000 1001 ''key'' (running_payload 7 900 5) empty_db = Some (Inr c, db')
       \<and> db' \<noteq> empty_db
       \<and> fetchChainReport (one_page_server (report_of [] None) []) 7 ''key'' = Inr (report_of [] None)
       \<and> sync_news plain_env (one_page_server (report_of [] None) []) 1000 ''key''
            (running_payload 7 900 5) empty_db 7 \<noteq> None)"
proof -
  let ?db = "saveChain (seeded_chain 7 950 (running_payload 7 900 3)) empty_db"
  have "\<exists>cons. sync_news plain_env (failing_report_server (ApiError ''network'' False) [])
             1000 ''key'' (running_payload 7 900 5) ?db 7 = Some (Inr cons)"
    unfolding sync_news_def
    by (subst single_page_news [where pg = "\<lparr>page_items = [], page_prev = None\<rparr>"])
       (simp_all add: failing_report_server_def no_cursor_def)
  then have m: "sync_news plain_env (failing_report_server (ApiError ''network'' False) [])
             1000 ''key'' (running_payload 7 900 5) ?db 7 \<noteq> Some (Inl e)" for e
    by auto
  have 1: "loadAndSyncChain plain_env (failing_report_server (ApiError ''network'' False) [])
       1000 1001 ''key'' (running_payload 7 900 5) ?db =
     Some (Inl (Rejected (ApiError ''network'' False)), ?db)"
    using failed_fetch_persists_nothing [of "running_payload 7 900 5" 7
        "failing_report_server (ApiError ''network'' False) []" "''key''"
        "ApiError ''network'' False" plain_env 1000 ?db "ApiError ''network'' False" 1001] m
    by (auto simp: running_payload_simps failing_report_server_def)
  have n: "sync_news plain_env (failing_news_server (report_of [] None) (ApiError ''Incorrect key'' True))
             1000 ''key'' (running_payload 7 900 5) ?db 7 = Some (Inl (ApiError ''Incorrect key'' True))"
    unfolding sync_news_def by (rule failed_first_page) (simp add: failing_news_server_def)
  have 2: "loadAndSyncChain plain_env (failing_news_server (report_of [] None) (ApiError ''Incorrect key'' True))
       1000 1001 ''key'' (running_payload 7 900 5) ?db =
     Some (Inl (Rejected (ApiError ''Incorrect key'' True)), ?db)"
    using failed_fetch_persists_nothing [of "running_payload 7 900 5" 7
        "failing_news_server (report_of [] None) (ApiError ''Incorrect key'' True)" "''key''"
        "ApiError ''Incorrect key'' True" plain_env 1000 ?db "ApiError ''Incorrect key'' True" 1001] n
    by (auto simp: running_payload_simps failing_news_server_def)
  obtain c db' where s: "loadAndSyncChain plain_env (one_page_server (report_of [] None) [])
       1000 1001 ''key'' (running_payload 7 900 5) empty_db = Some (Inr c, db')"
    and d: "db' = saveChain c (setConfig ''lastSyncTimestamp'' (JNum 1001) empty_db)"
    using one_page_sync [OF running_payload_simps(1)] by blast
  have ne: "db' \<noteq> empty_db"
  proof
    assume "db' = empty_db"
    then have "db_chains db' = []" by (simp add: empty_db_def)
    then show False by (simp add: d saveChain_def)
  qed
  from failed_fetch_persists_nothing [of "running_payload 7 900 5" 7
        "one_page_server (report_of [] None) []" "''key''" undefined plain_env 1000 empty_db undefined 1001
        "Inr c" db'] s ne
  have 3: "fetchChainReport (one_page_server (report_of [] None) []) 7 ''key'' = Inr (report_of [] None)
       \<and> sync_news plain_env (one_page_server (report_of [] None) []) 1000 ''key''
            (running_payload 7 900 5) empty_db 7 \<noteq> None"
    by (auto simp: running_payload_simps one_page_report)
  from 1 2 s ne 3 show ?thesis by blast
qed

section \<open>The merge, key by key\<close>

text \<open>
  The loops of \<^verbatim>\<open>mergeConsumption\<close> run over \<^verbatim>\<open>Object.entries\<close>, whose order the
  embedding does not fix (an association list enumerates in insertion order, the
  host language puts integer-like keys first). The result does not depend on it: a
  step reads and writes only the entry of its own key, so the entry under a key after
  the merge is determined by the entries under that key before it.
\<close>

lemma merge_xanax_other: "k \<noteq> fst kd \<Longrightarrow> DAList.lookup (merge_xanax kd c) k = DAList.lookup c k"
  by (simp add: merge_xanax_def Let_def lookup_update)

lemma merge_xanax_same:
  "DAList.lookup c k = DAList.lookup c' k \<Longrightarrow>
     DAList.lookup (merge_xanax (k, d) c) k = DAList.lookup (merge_xanax (k, d) c') k"
  by (simp add: merge_xanax_def Let_def lookup_update)

lemma merge_points_other: "k \<noteq> fst kd \<Longrightarrow> DAList.lookup (merge_points kd c) k = DAList.lookup c k"
  by (simp add: merge_points_def Let_def lookup_update)

lemma merge_points_same:
  "DAList.lookup c k = DAList.lookup c' k \<Longrightarrow>
     DAList.lookup (merge_points (k, d) c) k = DAList.lookup (merge_points (k, d) c') k"
  by (simp add: merge_points_def Let_def lookup_update)

lemma fold_merge_xanax_lookup:
  assumes "distinct (map fst kds)"
  shows "DAList.lookup (fold merge_xanax kds c) k =
     (case map_of kds k of
        None \<Rightarrow> DAList.lookup c k
      | Some d \<Rightarrow> DAList.lookup (merge_xanax (k, d) c) k)"
  using assms
proof (induction kds arbitrary: c)
  case Nil
  show ?case by simp
next
  case (Cons kd kds)
  obtain k' d' where kd: "kd = (k', d')" by (cases kd)
  from Cons.prems have dist: "distinct (map fst kds)" and fresh: "k' \<notin> fst ` set kds"
    by (simp_all add: kd)
  note IH = Cons.IH [OF dist, of "merge_xanax (k', d') c"]
  show ?case
  proof (cases "k = k'")
    case True
    with fresh have "map_of kds k = None"
      by (simp add: map_of_eq_None_iff)
    then show ?thesis
      using IH True by (simp add: kd)
  next
    case False
    then have o: "DAList.lookup (merge_xanax (k', d') c) k = DAList.lookup c k"
      by (simp add: merge_xanax_other)
    show ?thesis
    proof (cases "map_of kds k")
      case None
      then show ?thesis using IH False o by (simp add: kd)
    next
      case (Some d)
      then show ?thesis
        using IH False merge_xanax_same [OF o, of d] by (simp add: kd)
    qed
  qed
qed

lemma fold_merge_points_lookup:
  assumes "distinct (map fst kds)"
  shows "DAList.lookup (fold merge_points kds c) k =
     (case map_of kds k of
        None \<Rightarrow> DAList.lookup c k
      | Some d \<Rightarrow> DAList.lookup (merge_points (k, d) c) k)"
  using assms
proof (induction kds arbitrary: c)
  case Nil
  show ?case by simp
next
  case (Cons kd kds)
  obtain k' d' where kd: "kd = (k', d')" by (cases kd)
  from Cons.prems have dist: "distinct (map fst kds)" and fresh: "k' \<notin> fst ` set kds"
    by (simp_all add: kd)
  note IH = Cons.IH [OF dist, of "merge_points (k', d') c"]
  show ?case
  proof (cases "k = k'")
    case True
    with fresh have "map_of kds k = None"
      by (simp add: map_of_eq_None_iff)
    then show ?thesis
      using IH True by (simp add: kd)
  next
    case False
    then have o: "DAList.lookup (merge_points (k', d') c) k = DAList.lookup c k"
      by (simp add: merge_points_other)
    show ?thesis
    proof (cases "map_of kds k")
      case None
      then show ?thesis using IH False o by (simp add: kd)
    next
      case (Some d)
      then show ?thesis
        using IH False merge_points_same [OF o, of d] by (simp add: kd)
    qed
  qed
qed

lemma mergeConsumption_lookup:
  "DAList.lookup (consumption (mergeConsumption chain xanax points)) k =
     (case DAList.lookup points k of
        None \<Rightarrow> (case DAList.lookup xanax k of
                   None \<Rightarrow> DAList.lookup (consumption chain) k
                 | Some d \<Rightarrow> DAList.lookup (merge_xanax (k, d) (consumption chain)) k)
      | Some p \<Rightarrow> DAList.lookup
                   (merge_points (k, p)
                      (case DAList.lookup xanax k of
                         None \<Rightarrow> consumption chain
                       | Some d \<Rightarrow> merge_xanax (k, d) (consumption chain))) k)"
proof -
  let ?mid = "fold merge_xanax (DAList.impl_of xanax) (consumption chain)"
  have x: "DAList.lookup ?mid k =
     (case DAList.lookup xanax k of
        None \<Rightarrow> DAList.lookup (consumption chain) k
      | Some d \<Rightarrow> DAList.lookup (merge_xanax (k, d) (consumption chain)) k)"
    using fold_merge_xanax_lookup [of "DAList.impl_of xanax" "consumption chain" k]
    by (simp add: lookup.rep_eq)
  have p: "DAList.lookup (fold merge_points (DAList.impl_of points) ?mid) k =
     (case DAList.lookup points k of
        None \<Rightarrow> DAList.lookup ?mid k
      | Some d \<Rightarrow> DAList.lookup (merge_points (k, d) ?mid) k)"
    using fold_merge_points_lookup [of "DAList.impl_of points" ?mid k]
    by (simp add: lookup.rep_eq)
  have s: "DAList.lookup (merge_points (k, d) ?mid) k =
           DAList.lookup (merge_points (k, d)
              (case DAList.lookup xanax k of
                 None \<Rightarrow> consumption chain
               | Some e \<Rightarrow> merge_xanax (k, e) (consumption chain))) k" for d
    by (rule merge_points_same) (simp add: x split: option.splits)
  show ?thesis
    by (simp add: mergeConsumption_def p x s split: option.splits)
qed

section \<open>Monotone consumption\<close>

lemma cons_le_refl: "cons_le a a"
  by (simp add: cons_le_def)

lemma cons_le_trans: "cons_le a b \<Longrightarrow> cons_le b c \<Longrightarrow> cons_le a c"
  unfolding cons_le_def by (meson order_trans)

lemma merge_xanax_le: "0 \<le> x_count (snd kd) \<Longrightarrow> cons_le cons (merge_xanax kd cons)"
  by (auto simp: cons_le_def merge_xanax_def Let_def lookup_update)

lemma merge_points_le: "0 \<le> p_amount (snd kd) \<Longrightarrow> cons_le cons (merge_points kd cons)"
  by (auto simp: cons_le_def merge_points_def Let_def lookup_update)

lemma fold_merge_xanax_le:
  "(\<And>kd. kd \<in> set kds \<Longrightarrow> 0 \<le> x_count (snd kd)) \<Longrightarrow> cons_le cons (fold merge_xanax kds cons)"
proof (induction kds arbitrary: cons)
  case Nil
  show ?case by (simp add: cons_le_refl)
next
  case (Cons kd kds)
  have "cons_le cons (merge_xanax kd cons)"
    using Cons.prems by (simp add: merge_xanax_le)
  moreover have "cons_le (merge_xanax kd cons) (fold merge_xanax kds (merge_xanax kd cons))"
    using Cons.prems by (intro Cons.IH) simp
  ultimately show ?case by (auto intro: cons_le_trans)
qed

lemma fold_merge_points_le:
  "(\<And>kd. kd \<in> set kds \<Longrightarrow> 0 \<le> p_amount (snd kd)) \<Longrightarrow> cons_le cons (fold merge_points kds cons)"
proof (induction kds arbitrary: cons)
  case Nil
  show ?case by (simp add: cons_le_refl)
next
  case (Cons kd kds)
  have "cons_le cons (merge_points kd cons)"
    using Cons.prems by (simp add: merge_points_le)
  moreover have "cons_le (merge_points kd cons) (fold merge_points kds (merge_points kd cons))"
    using Cons.prems by (intro Cons.IH) simp
  ultimately show ?case by (auto intro: cons_le_trans)
qed

lemma entry_lookup: "(k, e) \<in> set (DAList.impl_of al) \<longleftrightarrow> DAList.lookup al k = Some e"
  by (simp add: lookup.rep_eq)

lemma mergeConsumption_le:
  assumes "nonneg_xanax xs" and "nonneg_points ps"
  shows "cons_le (consumption chain) (consumption (mergeConsumption chain xs ps))"
proof -
  have "cons_le (consumption chain) (fold merge_xanax (DAList.impl_of xs) (consumption chain))"
    using assms(1) by (intro fold_merge_xanax_le) (auto simp: nonneg_xanax_def entry_lookup [symmetric])
  moreover have "cons_le (fold merge_xanax (DAList.impl_of xs) (consumption chain))
       (fold merge_points (DAList.impl_of ps) (fold merge_xanax (DAList.impl_of xs) (consumption chain)))"
    using assms(2) by (intro fold_merge_points_le) (auto simp: nonneg_points_def entry_lookup [symmetric])
  ultimately show ?thesis
    by (auto simp: mergeConsumption_def intro: cons_le_trans)
qed

lemma digit_value_nonneg: "0 \<le> digit_value c"
  by (simp add: digit_value_def)

lemma parseInt_nonneg: "0 \<le> parseInt ds"
proof -
  have "0 \<le> n \<Longrightarrow> 0 \<le> fold (\<lambda>c n. 10 * n + digit_value c) ds n" for n
    by (induction ds arbitrary: n) (simp_all add: digit_value_nonneg)
  then show ?thesis by (simp add: parseInt_def)
qed

lemma addXanax_nonneg: "nonneg_xanax xs \<Longrightarrow> nonneg_xanax (addXanax mid name xs)"
  by (auto simp: nonneg_xanax_def addXanax_def Let_def lookup_update split: option.splits if_splits)

lemma addPoints_nonneg: "0 \<le> n \<Longrightarrow> nonneg_points ps \<Longrightarrow> nonneg_points (addPoints mid n name ps)"
  by (auto simp: nonneg_points_def addPoints_def Let_def lookup_update split: option.splits if_splits)

lemma fold_addPoints_nonneg:
  "nonneg_points ps \<Longrightarrow>
     nonneg_points (fold (\<lambda>ds. addPoints mid (parseInt ds) name) dss ps)"
  by (induction dss arbitrary: ps) (simp_all add: addPoints_nonneg parseInt_nonneg)

lemma process_item_nonneg:
  assumes "nonneg_xanax (ex_xanax st)" and "nonneg_points (ex_points st)"
  shows "nonneg_xanax (ex_xanax (process_item env cs ce item st))
       \<and> nonneg_points (ex_points (process_item env cs ce item st))"
proof (cases "js_lt (to_number env (item_ts item)) cs \<or> js_lt ce (to_number env (item_ts item))
              \<or> item_key env item \<in> set (ex_processed st)")
  case True
  then have "process_item env cs ce item st = st"
    using process_item_seen process_item_out_of_range by blast
  with assms show ?thesis by simp
next
  case False
  then have fresh: "\<not> js_lt (to_number env (item_ts item)) cs"
    "\<not> js_lt ce (to_number env (item_ts item))"
    "item_key env item \<notin> set (ex_processed st)"
    by simp_all
  show ?thesis
  proof (cases "extractMemberIdAndName (item_message item)")
    case None
    with assms show ?thesis
      by (simp add: process_item_fresh [OF fresh])
  next
    case (Some m)
    with assms show ?thesis
      by (simp add: process_item_fresh [OF fresh] addXanax_nonneg fold_addPoints_nonneg)
  qed
qed

lemma fold_process_nonneg:
  "nonneg_xanax (ex_xanax st) \<Longrightarrow> nonneg_points (ex_points st) \<Longrightarrow>
     nonneg_xanax (ex_xanax (fold (process_item env cs ce) items st))
     \<and> nonneg_points (ex_points (fold (process_item env cs ce) items st))"
proof (induction items arbitrary: st)
  case Nil
  then show ?case by simp
next
  case (Cons item items)
  from process_item_nonneg [OF Cons.prems, of env cs ce item]
  have "nonneg_xanax (ex_xanax (process_item env cs ce item st))"
    and "nonneg_points (ex_points (process_item env cs ce item st))"
    by blast+
  from Cons.IH [OF this] show ?case by simp
qed

lemma nonneg_empty: "nonneg_xanax DAList.empty" "nonneg_points DAList.empty"
  by (simp_all add: nonneg_xanax_def nonneg_points_def)

lemma extractConsumption_nonneg:
  "nonneg_xanax (ex_xanax (extractConsumption env items cs ce P))
     \<and> nonneg_points (ex_points (extractConsumption env items cs ce P))"
  unfolding extractConsumption_def
  by (rule fold_process_nonneg) (simp_all add: nonneg_empty)

lemma fetched_nonneg:
  assumes "fetchAllFactionNews env server apiKey cs ce P = Some (Inr cons)"
  shows "nonneg_xanax (ex_xanax cons) \<and> nonneg_points (ex_points cons)"
proof -
  from assms obtain items where "cons = extractConsumption env items cs ce P"
    by (auto simp: fetchAllFactionNews_def split: option.splits sum.splits prod.splits)
  then show ?thesis by (simp add: extractConsumption_nonneg)
qed


lemma sync_result_cases:
  assumes "loadAndSyncChain env server now now_saved apiKey cc db = Some (res, db')"
  shows "db' = db \<or>
     (\<exists>cid report cons.
        payload_chainId cc = Some cid
      \<and> fetchChainReport server cid apiKey = Inr report
      \<and> sync_news env server now apiKey cc db cid = Some (Inr cons)
      \<and> res = Inr (apply_fetched (loaded_chain db cid now cc) report cons cc (payload_end now cc))
      \<and> db' = saveChain (apply_fetched (loaded_chain db cid now cc) report cons cc (payload_end now cc))
                 (setConfig ''lastSyncTimestamp'' (JNum now_saved) db))"
  using assms unfolding sync_unfold
  by (auto split: option.splits sum.splits)

lemma loaded_chain_found: "getChain db cid = Some chain \<Longrightarrow> loaded_chain db cid now cc = chain"
  by (simp add: loaded_chain_def)

lemma sync_le:
  assumes "loadAndSyncChain env server now now_saved apiKey cc db = Some (res, db')"
    and "getChain db k = Some chain"
  shows "\<exists>chain'. getChain db' k = Some chain' \<and> cons_le (consumption chain) (consumption chain')"
proof -
  from sync_result_cases [OF assms(1)] show ?thesis
  proof
    assume "db' = db"
    with assms(2) show ?thesis by (auto intro: cons_le_refl)
  next
    assume "\<exists>cid report cons.
        payload_chainId cc = Some cid
      \<and> fetchChainReport server cid apiKey = Inr report
      \<and> sync_news env server now apiKey cc db cid = Some (Inr cons)
      \<and> res = Inr (apply_fetched (loaded_chain db cid now cc) report cons cc (payload_end now cc))
      \<and> db' = saveChain (apply_fetched (loaded_chain db cid now cc) report cons cc (payload_end now cc))
                 (setConfig ''lastSyncTimestamp'' (JNum now_saved) db)"
    then obtain cid report cons where
      news: "sync_news env server now apiKey cc db cid = Some (Inr cons)"
      and d: "db' = saveChain (apply_fetched (loaded_chain db cid now cc) report cons cc (payload_end now cc))
                 (setConfig ''lastSyncTimestamp'' (JNum now_saved) db)"
      by blast
    let ?new = "apply_fetched (loaded_chain db cid now cc) report cons cc (payload_end now cc)"
    have idn: "chainId ?new = cid"
      by (simp add: apply_fetched_fields loaded_chain_id)
    show ?thesis
    proof (cases "k = cid")
      case True
      with assms(2) have l: "loaded_chain db cid now cc = chain"
        by (simp add: loaded_chain_found)
      have nn: "nonneg_xanax (ex_xanax cons) \<and> nonneg_points (ex_points cons)"
        using news unfolding sync_news_def by (rule fetched_nonneg)
      have "cons_le (consumption chain) (consumption ?new)"
        using nn by (simp add: apply_fetched_fields l mergeConsumption_le)
      moreover have "getChain db' k = Some ?new"
        using True by (simp add: d getChain_saveChain idn)
      ultimately show ?thesis by blast
    next
      case False
      then have "getChain db' k = Some chain"
        using assms(2) by (simp add: d getChain_saveChain getChain_setConfig idn)
      then show ?thesis by (auto intro: cons_le_refl)
    qed
  qed
qed

lemma run_syncs_le:
  assumes "run_syncs env requests db = Some db'" and "getChain db k = Some chain"
  shows "\<exists>chain'. getChain db' k = Some chain' \<and> cons_le (consumption chain) (consumption chain')"
  using assms
proof (induction requests arbitrary: db chain)
  case Nil
  then show ?case by (auto intro: cons_le_refl)
next
  case (Cons rq requests)
  from Cons.prems(1) obtain res db1 where
    s: "sync_once env rq db = Some (res, db1)" and r: "run_syncs env requests db1 = Some db'"
    by (auto split: option.splits)
  from sync_le [OF s [unfolded sync_once_def] Cons.prems(2)] obtain chain1 where
    g1: "getChain db1 k = Some chain1" and l1: "cons_le (consumption chain) (consumption chain1)"
    by blast
  from Cons.IH [OF r g1] obtain chain' where
    "getChain db' k = Some chain'" and "cons_le (consumption chain1) (consumption chain')"
    by blast
  with l1 show ?case by (auto intro: cons_le_trans)
qed

text \<open>
  Syncs alone are monotone. Merging a batch that \<^verbatim>\<open>extractConsumption\<close> aggregated
  keeps every entry of the record's consumption and lowers neither its xanax count
  nor its points; and over any sequence of \<^verbatim>\<open>loadAndSyncChain\<close> calls that returns,
  whatever their payloads and outcomes, every consumption entry of a persisted chain
  record is still there afterwards with values at least as large.
\<close>

lemma sync_sequence_monotone:
  "(DAList.lookup (consumption chain) actor = Some v \<longrightarrow>
      (\<exists>v'. DAList.lookup
              (consumption (mergeConsumption chain
                 (ex_xanax (extractConsumption env items chainStart chainEnd processedIds))
                 (ex_points (extractConsumption env items chainStart chainEnd processedIds))))
              actor = Some v'
          \<and> c_xanax v \<le> c_xanax v' \<and> c_points v \<le> c_points v'))
   \<and> (run_syncs env requests db = Some db' \<and> getChain db cid = Some chain
        \<and> DAList.lookup (consumption chain) actor = Some v \<longrightarrow>
      (\<exists>chain' v'. getChain db' cid = Some chain'
          \<and> DAList.lookup (consumption chain') actor = Some v'
          \<and> c_xanax v \<le> c_xanax v' \<and> c_points v \<le> c_points v'))"
proof (intro conjI impI)
  assume "DAList.lookup (consumption chain) actor = Some v"
  moreover have "cons_le (consumption chain)
     (consumption (mergeConsumption chain
                 (ex_xanax (extractConsumption env items chainStart chainEnd processedIds))
                 (ex_points (extractConsumption env items chainStart chainEnd processedIds))))"
    using extractConsumption_nonneg by (intro mergeConsumption_le) blast+
  ultimately show "\<exists>v'. DAList.lookup
              (consumption (mergeConsumption chain
                 (ex_xanax (extractConsumption env items chainStart chainEnd processedIds))
                 (ex_points (extractConsumption env items chainStart chainEnd processedIds))))
              actor = Some v'
          \<and> c_xanax v \<le> c_xanax v' \<and> c_points v \<le> c_points v'"
    unfolding cons_le_def by blast
next
  assume a: "run_syncs env requests db = Some db' \<and> getChain db cid = Some chain
        \<and> DAList.lookup (consumption chain) actor = Some v"
  then obtain chain' where "getChain db' cid = Some chain'"
    and "cons_le (consumption chain) (consumption chain')"
    using run_syncs_le by blast
  with a show "\<exists>chain' v'. getChain db' cid = Some chain'
          \<and> DAList.lookup (consumption chain') actor = Some v'
          \<and> c_xanax v \<le> c_xanax v' \<and> c_points v \<le> c_points v'"
    unfolding cons_le_def by blast
qed


lemma tracked_chain_fields:
  "chainId tracked_chain = 7"
  "consumption tracked_chain =
     DAList.update ''A'' \<lparr>c_xanax = 1, c_points = 1000, c_name = ''A''\<rparr> DAList.empty"
  "processedNewsIds tracked_chain = [JStr ''n1'', JStr ''n2'']"
  by (simp_all add: tracked_chain_def)

lemma third_item_extraction:
  "extractConsumption plain_env [feed_item 960 ''n3'' ''A used one of the faction's Xanax items'']
     (Some 900) (Some 1000) [JStr ''n1'', JStr ''n2''] =
   \<lparr>ex_xanax = DAList.update ''A'' \<lparr>x_count = 1, x_name = ''A''\<rparr> DAList.empty,
    ex_points = DAList.empty,
    ex_processed = [JStr ''n1'', JStr ''n2'', JStr ''n3'']\<rparr>"
  by (simp add: extractConsumption_def process_item_fresh feed_item_simps js_lt_def
      one_actor_messages addXanax_def del: points_matches.simps)

lemma tracked_merge:
  "DAList.lookup (consumption (mergeConsumption tracked_chain
       (DAList.update ''A'' \<lparr>x_count = 1, x_name = ''A''\<rparr> DAList.empty) DAList.empty)) ''A'' =
     Some \<lparr>c_xanax = 2, c_points = 1000, c_name = ''A''\<rparr>"
  by (simp add: mergeConsumption_def tracked_chain_fields merge_xanax_def
      update.rep_eq empty.rep_eq lookup.rep_eq)

lemma sync_sequence_monotone_example:
  "(\<exists>v'. DAList.lookup
       (consumption (mergeConsumption tracked_chain
          (ex_xanax (extractConsumption plain_env
             [feed_item 960 ''n3'' ''A used one of the faction's Xanax items'']
             (Some 900) (Some 1000) [JStr ''n1'', JStr ''n2'']))
          (ex_points (extractConsumption plain_env
             [feed_item 960 ''n3'' ''A used one of the faction's Xanax items'']
             (Some 900) (Some 1000) [JStr ''n1'', JStr ''n2''])))) ''A'' = Some v'
      \<and> 1 \<le> c_xanax v' \<and> 1000 \<le> c_points v' \<and> c_xanax v' = 2 \<and> c_points v' = 1000)
   \<and> (\<exists>db' chain' v'.
        run_syncs plain_env
          [\<lparr>sr_server = one_page_server (report_of [] None)
                [feed_item 960 ''n3'' ''A used one of the faction's Xanax items''],
            sr_now = 1000, sr_now_saved = 1001, sr_apiKey = ''key'',
            sr_payload = running_payload 7 900 5\<rparr>]
          (saveChain tracked_chain empty_db) = Some db'
      \<and> getChain db' 7 = Some chain'
      \<and> DAList.lookup (consumption chain') ''A'' = Some v'
      \<and> 1 \<le> c_xanax v' \<and> 1000 \<le> c_points v' \<and> c_xanax v' = 2 \<and> c_points v' = 1000)"
proof -
  let ?item = "feed_item 960 ''n3'' ''A used one of the faction's Xanax items''"
  let ?db = "saveChain tracked_chain empty_db"
  let ?rq = "\<lparr>sr_server = one_page_server (report_of [] None) [?item],
            sr_now = 1000, sr_now_saved = 1001, sr_apiKey = ''key'',
            sr_payload = running_payload 7 900 5\<rparr>"
  have g: "getChain ?db 7 = Some tracked_chain"
    by (simp add: getChain_saveChain tracked_chain_fields)
  have l: "DAList.lookup (consumption tracked_chain) ''A'' =
             Some \<lparr>c_xanax = 1, c_points = 1000, c_name = ''A''\<rparr>"
    by (simp add: tracked_chain_fields)
  have 1: "\<exists>v'. DAList.lookup
       (consumption (mergeConsumption tracked_chain
          (ex_xanax (extractConsumption plain_env [?item] (Some 900) (Some 1000) [JStr ''n1'', JStr ''n2'']))
          (ex_points (extractConsumption plain_env [?item] (Some 900) (Some 1000) [JStr ''n1'', JStr ''n2''])))) ''A'' = Some v'
      \<and> 1 \<le> c_xanax v' \<and> 1000 \<le> c_points v' \<and> c_xanax v' = 2 \<and> c_points v' = 1000"
    using sync_sequence_monotone [where chain = tracked_chain and actor = "''A''"
        and v = "\<lparr>c_xanax = 1, c_points = 1000, c_name = ''A''\<rparr>"
        and env = plain_env and items = "[?item]" and chainStart = "Some 900"
        and chainEnd = "Some 1000" and processedIds = "[JStr ''n1'', JStr ''n2'']"
        and requests = "[]" and db = ?db and db' = ?db and cid = 7] l
    by (simp add: third_item_extraction tracked_merge)
  have p: "payload_chainId (running_payload 7 900 5) = Some 7"
    by (rule running_payload_simps)
  obtain c' db' where s: "sync_once plain_env ?rq ?db = Some (Inr c', db')"
    and c': "c' = apply_fetched (loaded_chain ?db 7 1000 (running_payload 7 900 5)) (report_of [] None)
                  (extractConsumption plain_env
                     (takeWhile (\<lambda>item. \<not> before_start plain_env (payload_start (running_payload 7 900 5)) item) [?item])
                     (payload_start (running_payload 7 900 5)) (Some (payload_end 1000 (running_payload 7 900 5)))
                     (new_Set (processedNewsIds (loaded_chain ?db 7 1000 (running_payload 7 900 5)))))
                  (running_payload 7 900 5) (payload_end 1000 (running_payload 7 900 5))"
    and d: "db' = saveChain c' (setConfig ''lastSyncTimestamp'' (JNum 1001) ?db)"
    using one_page_sync [OF p, where env = plain_env
        and report = "report_of [] None" and items = "[?item]" and now = 1000 and now_saved = 1001
        and apiKey = "''key''" and db = ?db]
    by (simp add: sync_once_def)
  have r: "run_syncs plain_env [?rq] ?db = Some db'"
    using s by simp
  have ns: "new_Set [JStr ''n1'', JStr ''n2''] = [JStr ''n1'', JStr ''n2'']"
    by (simp add: new_Set_def set_add_def)
  have v: "DAList.lookup (consumption c') ''A'' = Some \<lparr>c_xanax = 2, c_points = 1000, c_name = ''A''\<rparr>"
    by (simp add: c' apply_fetched_fields loaded_chain_found [OF g] running_payload_simps
        before_start_feed_item tracked_chain_fields(3) ns third_item_extraction tracked_merge)
  from sync_sequence_monotone [where chain = tracked_chain and actor = "''A''"
        and v = "\<lparr>c_xanax = 1, c_points = 1000, c_name = ''A''\<rparr>"
        and env = plain_env and requests = "[?rq]" and db = ?db and db' = db' and cid = 7
        and items = "[]" and chainStart = None and chainEnd = None and processedIds = "[]"] r g l
  obtain chain' v' where "getChain db' 7 = Some chain'"
    and "DAList.lookup (consumption chain') ''A'' = Some v'"
    and "1 \<le> c_xanax v'" and "1000 \<le> c_points v'"
    by auto
  moreover have "getChain db' 7 = Some c'"
    by (simp add: d getChain_saveChain c' apply_fetched_fields loaded_chain_id)
  ultimately have 2: "\<exists>chain' v'. getChain db' 7 = Some chain'
      \<and> DAList.lookup (consumption chain') ''A'' = Some v'
      \<and> 1 \<le> c_xanax v' \<and> 1000 \<le> c_points v' \<and> c_xanax v' = 2 \<and> c_points v' = 1000"
    using v by auto
  from 1 2 r show ?thesis by blast
qed

section \<open>End and status\<close>

lemma ended_payload_simps:
  "payload_chainId (ended_payload cid start ended) = Some cid"
  "payload_start (ended_payload cid start ended) = Some start"
  "payload_end now (ended_payload cid start (Some e)) = e"
  "payload_end now (ended_payload cid start None) = now"
  "cc_current (ended_payload cid start ended) = None"
  by (simp_all add: ended_payload_def payload_chainId_def payload_start_def payload_isActive_def
      payload_end_def nullish_def)

lemma truthy_simps: "\<not> truthy None" "truthy (Some n) = (n \<noteq> 0)"
  by (simp_all add: truthy_def)

lemma payload_end_cases:
  "payload_end now cc =
     (if cc_current cc = None then (case cc_end cc of Some e \<Rightarrow> e | None \<Rightarrow> now) else now)"
  by (simp add: payload_end_def payload_isActive_def split: option.splits)

lemma one_page_sync_once:
  assumes "sr_server rq = one_page_server report items" and "payload_chainId (sr_payload rq) = Some cid"
  shows "\<exists>chain'. sync_once env rq db =
            Some (Inr chain', saveChain chain' (setConfig ''lastSyncTimestamp'' (JNum (sr_now_saved rq)) db))
          \<and> chainId chain' = cid
          \<and> chain_end chain' =
              (if truthy (cc_current (sr_payload rq)) then None
               else Some (case r_end report of Some e \<Rightarrow> e
                          | None \<Rightarrow> payload_end (sr_now rq) (sr_payload rq)))
          \<and> status chain' = (if truthy (chain_end chain') then Finished else Active)"
  unfolding sync_once_def assms(1) one_page_sync [OF assms(2)]
  by (simp add: apply_fetched_fields loaded_chain_id)

lemma sample_syncs:
  "sr_server listed_sync = one_page_server (report_of [] None) []"
  "payload_chainId (sr_payload listed_sync) = Some 7"
  "sr_payload listed_sync = ended_payload 7 900 None"
  "sr_now listed_sync = 1000"
  "sr_server ended_sync = one_page_server (report_of [] None) []"
  "payload_chainId (sr_payload ended_sync) = Some 7"
  "sr_payload ended_sync = ended_payload 7 900 (Some 990)"
  "sr_now ended_sync = 1000"
  "sr_server running_sync = one_page_server (report_of [] None) []"
  "payload_chainId (sr_payload running_sync) = Some 7"
  "sr_payload running_sync = running_payload 7 900 5"
  "sr_now running_sync = 1100"
  by (simp_all add: listed_sync_def ended_sync_def running_sync_def ended_payload_simps
      running_payload_simps)

text \<open>
  Counterexample to claim C4 as stated.
  The status is not one-directional, and the end is not always the report's marker
  or the current time. A sync driven by a payload without \<^verbatim>\<open>current\<close> and without
  \<^verbatim>\<open>end\<close> persists chain 7 as finished, with end 1000; a later sync of the same chain
  driven by a payload in progress persists it as active again, with end \<^verbatim>\<open>null\<close>. And a
  sync at time 1000 driven by a payload that ended at 990, with a report that has no
  end marker, sets the end to 990.
\<close>

theorem status_reverts_counterexample:
  "status_after plain_env [listed_sync] empty_db 7 = Some Finished
   \<and> end_after plain_env [listed_sync] empty_db 7 = Some (Some 1000)
   \<and> status_after plain_env [listed_sync, running_sync] empty_db 7 = Some Active
   \<and> end_after plain_env [listed_sync, running_sync] empty_db 7 = Some None
   \<and> sr_now ended_sync = 1000
   \<and> end_after plain_env [ended_sync] empty_db 7 = Some (Some 990)"
proof -
  obtain c1 db1 where s1: "sync_once plain_env listed_sync empty_db = Some (Inr c1, db1)"
    and d1: "db1 = saveChain c1 (setConfig ''lastSyncTimestamp'' (JNum (sr_now_saved listed_sync)) empty_db)"
    and i1: "chainId c1 = 7" and e1: "chain_end c1 = Some 1000" and t1: "status c1 = Finished"
    using one_page_sync_once [OF sample_syncs(1) sample_syncs(2), of plain_env empty_db]
    by (auto simp: sample_syncs ended_payload_simps truthy_simps report_of_simps)
  obtain c2 db2 where s2: "sync_once plain_env running_sync db1 = Some (Inr c2, db2)"
    and d2: "db2 = saveChain c2 (setConfig ''lastSyncTimestamp'' (JNum (sr_now_saved running_sync)) db1)"
    and i2: "chainId c2 = 7" and e2: "chain_end c2 = None" and t2: "status c2 = Active"
    using one_page_sync_once [OF sample_syncs(9) sample_syncs(10), of plain_env db1]
    by (auto simp: sample_syncs running_payload_simps truthy_simps report_of_simps)
  obtain c3 db3 where s3: "sync_once plain_env ended_sync empty_db = Some (Inr c3, db3)"
    and d3: "db3 = saveChain c3 (setConfig ''lastSyncTimestamp'' (JNum (sr_now_saved ended_sync)) empty_db)"
    and i3: "chainId c3 = 7" and e3: "chain_end c3 = Some 990"
    using one_page_sync_once [OF sample_syncs(5) sample_syncs(6), of plain_env empty_db]
    by (auto simp: sample_syncs ended_payload_simps truthy_simps report_of_simps)
  have g1: "getChain db1 7 = Some c1" by (simp add: d1 getChain_saveChain i1)
  have g2: "getChain db2 7 = Some c2" by (simp add: d2 getChain_saveChain i2)
  have g3: "getChain db3 7 = Some c3" by (simp add: d3 getChain_saveChain i3)
  show ?thesis
    by (simp add: status_after_def end_after_def s1 s2 s3 g1 g2 g3 e1 e2 e3 t1 t2 sample_syncs)
qed

text \<open>
  Claim C4, as amended. Within a single sync that succeeds, the end and the status of
  the record (returned and persisted) are computed from the driving payload and the
  report alone, whatever the persisted status was: when \<^verbatim>\<open>currentChain.current\<close> is
  truthy the end is \<^verbatim>\<open>null\<close> and the status is active; otherwise the end is the
  report's end marker if present, else the payload's own end when the payload has no
  \<^verbatim>\<open>current\<close> and has an end, else the current time, and the status is finished
  exactly when that end is not zero.
\<close>

theorem sync_end_and_status:
  assumes "loadAndSyncChain env server now now_saved apiKey currentChain db = Some (Inr chain', db')"
    and "payload_chainId currentChain = Some cid"
    and "fetchChainReport server cid apiKey = Inr report"
  shows "(truthy (cc_current currentChain) \<longrightarrow> chain_end chain' = None \<and> status chain' = Active)
       \<and> (\<not> truthy (cc_current currentChain) \<longrightarrow>
            chain_end chain' =
              Some (case r_end report of
                      Some e \<Rightarrow> e
                    | None \<Rightarrow> (if cc_current currentChain = None
                               then (case cc_end currentChain of Some e \<Rightarrow> e | None \<Rightarrow> now)
                               else now))
          \<and> status chain' =
              (if (case r_end report of
                     Some e \<Rightarrow> e
                   | None \<Rightarrow> (if cc_current currentChain = None
                              then (case cc_end currentChain of Some e \<Rightarrow> e | None \<Rightarrow> now)
                              else now)) \<noteq> 0
               then Finished else Active))
       \<and> getChain db' cid = Some chain'"
proof -
  from assms(1) obtain cid' report' cons where
    c: "payload_chainId currentChain = Some cid'"
    and r: "fetchChainReport server cid' apiKey = Inr report'"
    and ch: "chain' = apply_fetched (loaded_chain db cid' now currentChain) report' cons currentChain
                (payload_end now currentChain)"
    and d: "db' = saveChain chain' (setConfig ''lastSyncTimestamp'' (JNum now_saved) db)"
    by (rule sync_success)
  from c assms(2) have [simp]: "cid' = cid" by simp
  from r assms(3) have [simp]: "report' = report" by simp
  have e: "chain_end chain' =
     (if truthy (cc_current currentChain) then None
      else Some (case r_end report of Some x \<Rightarrow> x | None \<Rightarrow> payload_end now currentChain))"
    by (simp add: ch apply_fetched_fields)
  have s: "status chain' = (if truthy (chain_end chain') then Finished else Active)"
    by (simp add: ch apply_fetched_fields)
  have g: "getChain db' cid = Some chain'"
    by (simp add: d getChain_saveChain ch apply_fetched_fields loaded_chain_id)
  show ?thesis
    using e s g by (auto simp: truthy_simps payload_end_cases split: option.splits)
qed

theorem sync_end_and_status_witness:
  "\<exists>c1 db1 c2 db2 c3 db3.
     sync_once plain_env listed_sync empty_db = Some (Inr c1, db1)
   \<and> chain_end c1 = Some 1000 \<and> status c1 = Finished \<and> getChain db1 7 = Some c1
   \<and> sync_once plain_env running_sync db1 = Some (Inr c2, db2)
   \<and> chain_end c2 = None \<and> status c2 = Active \<and> getChain db2 7 = Some c2
   \<and> sync_once plain_env ended_sync db2 = Some (Inr c3, db3)
   \<and> chain_end c3 = Some 990 \<and> status c3 = Finished \<and> getChain db3 7 = Some c3"
proof -
  have rep: "fetchChainReport (one_page_server (report_of [] None) []) 7 ''key'' = Inr (report_of [] None)"
    by (rule one_page_report)
  obtain c1 db1 where s1: "sync_once plain_env listed_sync empty_db = Some (Inr c1, db1)"
    using one_page_sync_once [OF sample_syncs(1) sample_syncs(2), of plain_env empty_db] by blast
  obtain c2 db2 where s2: "sync_once plain_env running_sync db1 = Some (Inr c2, db2)"
    using one_page_sync_once [OF sample_syncs(9) sample_syncs(10), of plain_env db1] by blast
  obtain c3 db3 where s3: "sync_once plain_env ended_sync db2 = Some (Inr c3, db3)"
    using one_page_sync_once [OF sample_syncs(5) sample_syncs(6), of plain_env db2] by blast
  have k: "sr_apiKey listed_sync = ''key''" "sr_apiKey running_sync = ''key''" "sr_apiKey ended_sync = ''key''"
    by (simp_all add: listed_sync_def running_sync_def ended_sync_def)
  have 1: "chain_end c1 = Some 1000 \<and> status c1 = Finished \<and> getChain db1 7 = Some c1"
    using sync_end_and_status [OF s1 [unfolded sync_once_def] sample_syncs(2)] rep
    by (simp add: sample_syncs k ended_payload_simps truthy_simps report_of_simps ended_payload_def)
  have 2: "chain_end c2 = None \<and> status c2 = Active \<and> getChain db2 7 = Some c2"
    using sync_end_and_status [OF s2 [unfolded sync_once_def] sample_syncs(10)] rep
    by (simp add: sample_syncs k running_payload_simps truthy_simps report_of_simps)
  have 3: "chain_end c3 = Some 990 \<and> status c3 = Finished \<and> getChain db3 7 = Some c3"
    using sync_end_and_status [OF s3 [unfolded sync_once_def] sample_syncs(6)] rep
    by (simp add: sample_syncs k ended_payload_simps truthy_simps report_of_simps ended_payload_def)
  from s1 s2 s3 1 2 3 show ?thesis by blast
qed

section \<open>The save of the captured record\<close>

lemma spender_message:
  "extractMemberIdAndName ''B used 500 faction points'' =
     Some \<lparr>member_id = ''B'', member_name = ''B''\<rparr>"
  "\<not> js_includes ''B used 500 faction points'' XANAX_PHRASE"
  "map parseInt (points_matches ''B used 500 faction points'') = [500]"
  by code_simp+

lemma opening_extraction:
  "extractConsumption plain_env
     [feed_item 950 ''n1'' ''A used one of the faction's Xanax items''] (Some 900) (Some 1000) [] =
   \<lparr>ex_xanax = DAList.update ''A'' \<lparr>x_count = 1, x_name = ''A''\<rparr> DAList.empty,
    ex_points = DAList.empty,
    ex_processed = [JStr ''n1'']\<rparr>"
  by (simp add: extractConsumption_def process_item_fresh feed_item_simps js_lt_def
      one_actor_messages addXanax_def del: points_matches.simps)

lemma running_extraction:
  "extractConsumption plain_env
     [feed_item 1060 ''n3'' ''B used 500 faction points'',
      feed_item 1050 ''n2'' ''A used one of the faction's Xanax items'',
      feed_item 950 ''n1'' ''A used one of the faction's Xanax items'']
     (Some 900) (Some 1120) [JStr ''n1''] =
   \<lparr>ex_xanax = DAList.update ''A'' \<lparr>x_count = 1, x_name = ''A''\<rparr> DAList.empty,
    ex_points = DAList.update ''B'' \<lparr>p_amount = 500, p_name = ''B''\<rparr> DAList.empty,
    ex_processed = [JStr ''n1'', JStr ''n3'', JStr ''n2'']\<rparr>"
  by (simp add: extractConsumption_def process_item_fresh process_item_seen feed_item_simps js_lt_def
      one_actor_messages spender_message fold_addPoints_map addXanax_def addPoints_def
      del: points_matches.simps)

lemma session_requests:
  "sr_server opening_sync = one_page_server (report_of [] None)
        [feed_item 950 ''n1'' ''A used one of the faction's Xanax items'']"
  "sr_now opening_sync = 1000" "sr_now_saved opening_sync = 1001" "sr_apiKey opening_sync = ''key''"
  "sr_payload opening_sync = running_payload 7 900 5"
  "tk_fetched running_tick = Inr (Some (running_payload 7 900 8))"
  "tk_server running_tick = one_page_server (report_of [] None)
        [feed_item 1060 ''n3'' ''B used 500 faction points'',
         feed_item 1050 ''n2'' ''A used one of the faction's Xanax items'',
         feed_item 950 ''n1'' ''A used one of the faction's Xanax items'']"
  "tk_now running_tick = 1120" "tk_now_saved running_tick = 1121"
  "tk_fetched closing_tick = Inr None"
  "tk_now closing_tick = 1240" "tk_now_saved closing_tick = 1241"
  by (simp_all add: opening_sync_def running_tick_def closing_tick_def)

text \<open>
  Claim C6. Consumption monotonicity fails over a dashboard session. The interval
  callback of \<^verbatim>\<open>startAutoRefresh\<close> keeps the record that the first sync returned; when
  it finds that the chain has ended it marks that record finished and saves it, over
  the record that the syncs in between persisted. In the session below the store holds,
  after the first tick, A at 2 xanax, B at 500 points and three processed ids; after
  the tick that finds no chain it holds the first sync's record again: A at 1 xanax, no
  entry for B, one processed id. The consumption was replaced wholesale by older
  values.
\<close>

theorem refresh_overwrites_consumption:
  "stored_consumption (dashboard_session plain_env opening_sync [running_tick] empty_db) 7 ''A'' =
     Some \<lparr>c_xanax = 2, c_points = 0, c_name = ''A''\<rparr>
   \<and> stored_consumption (dashboard_session plain_env opening_sync [running_tick] empty_db) 7 ''B'' =
     Some \<lparr>c_xanax = 0, c_points = 500, c_name = ''B''\<rparr>
   \<and> stored_processed (dashboard_session plain_env opening_sync [running_tick] empty_db) 7 =
     Some [JStr ''n1'', JStr ''n3'', JStr ''n2'']
   \<and> stored_consumption
       (dashboard_session plain_env opening_sync [running_tick, closing_tick] empty_db) 7 ''A'' =
     Some \<lparr>c_xanax = 1, c_points = 0, c_name = ''A''\<rparr>
   \<and> stored_consumption
       (dashboard_session plain_env opening_sync [running_tick, closing_tick] empty_db) 7 ''B'' = None
   \<and> stored_processed
       (dashboard_session plain_env opening_sync [running_tick, closing_tick] empty_db) 7 =
     Some [JStr ''n1'']"
proof -
  let ?rp5 = "running_payload 7 900 5"
  let ?rp8 = "running_payload 7 900 8"
  let ?rep = "report_of [] None"
  define c0 where "c0 = apply_fetched (seeded_chain 7 1000 ?rp5) ?rep
       \<lparr>ex_xanax = DAList.update ''A'' \<lparr>x_count = 1, x_name = ''A''\<rparr> DAList.empty,
        ex_points = DAList.empty, ex_processed = [JStr ''n1'']\<rparr> ?rp5 1000"
  define db1 where "db1 = saveChain c0 (setConfig ''lastSyncTimestamp'' (JNum 1001) empty_db)"
  have s0: "sync_once plain_env opening_sync empty_db = Some (Inr c0, db1)"
    by (simp add: sync_once_def session_requests one_page_sync [OF running_payload_simps(1)]
        running_payload_simps loaded_chain_empty_db seeded_chain_fields new_Set_Nil
        before_start_feed_item opening_extraction c0_def db1_def)
  have c0_id: "chainId c0 = 7"
    by (simp add: c0_def apply_fetched_fields seeded_chain_fields)
  have c0_end: "chain_end c0 = None"
    by (simp add: c0_def apply_fetched_fields running_payload_simps truthy_simps)
  have c0_status: "status c0 = Active"
    by (simp add: c0_def apply_fetched_fields running_payload_simps truthy_simps)
  have c0_ids: "processedNewsIds c0 = [JStr ''n1'']"
    by (simp add: c0_def apply_fetched_fields)
  have c0_cons: "consumption c0 =
      DAList.update ''A'' \<lparr>c_xanax = 1, c_points = 0, c_name = ''A''\<rparr> DAList.empty"
    by (simp add: c0_def apply_fetched_fields mergeConsumption_def seeded_chain_fields
        merge_xanax_def update.rep_eq empty.rep_eq lookup.rep_eq)
  have g1: "getChain db1 7 = Some c0"
    by (simp add: db1_def getChain_saveChain c0_id)
  define c1 where "c1 = apply_fetched c0 ?rep
       \<lparr>ex_xanax = DAList.update ''A'' \<lparr>x_count = 1, x_name = ''A''\<rparr> DAList.empty,
        ex_points = DAList.update ''B'' \<lparr>p_amount = 500, p_name = ''B''\<rparr> DAList.empty,
        ex_processed = [JStr ''n1'', JStr ''n3'', JStr ''n2'']\<rparr> ?rp8 1120"
  define db2 where "db2 = saveChain c1 (setConfig ''lastSyncTimestamp'' (JNum 1121) db1)"
  have ns: "new_Set [JStr ''n1''] = [JStr ''n1'']"
    by (simp add: new_Set_def set_add_def)
  have s1: "loadAndSyncChain plain_env (tk_server running_tick) 1120 1121 ''key'' ?rp8 db1 =
              Some (Inr c1, db2)"
    by (simp add: session_requests one_page_sync [OF running_payload_simps(1)]
        running_payload_simps loaded_chain_found [OF g1] c0_ids ns
        before_start_feed_item running_extraction c1_def db2_def)
  have c1_id: "chainId c1 = 7"
    by (simp add: c1_def apply_fetched_fields c0_id)
  have c1_ids: "processedNewsIds c1 = [JStr ''n1'', JStr ''n3'', JStr ''n2'']"
    by (simp add: c1_def apply_fetched_fields)
  have c1_A: "DAList.lookup (consumption c1) ''A'' = Some \<lparr>c_xanax = 2, c_points = 0, c_name = ''A''\<rparr>"
    by (simp add: c1_def apply_fetched_fields mergeConsumption_def c0_cons
        merge_xanax_def merge_points_def update.rep_eq empty.rep_eq lookup.rep_eq)
  have c1_B: "DAList.lookup (consumption c1) ''B'' = Some \<lparr>c_xanax = 0, c_points = 500, c_name = ''B''\<rparr>"
    by (simp add: c1_def apply_fetched_fields mergeConsumption_def c0_cons
        merge_xanax_def merge_points_def update.rep_eq empty.rep_eq lookup.rep_eq)
  have g2: "getChain db2 7 = Some c1"
    by (simp add: db2_def getChain_saveChain c1_id)
  have t1: "refresh_tick plain_env (tk_server running_tick) (tk_fetched running_tick)
              (tk_now running_tick) (tk_now_saved running_tick) ''key'' c0 db1 = Some (c0, db2, True)"
    using s1
    by (simp add: refresh_tick_def chain_gone_def session_requests running_payload_simps truthy_simps)
  define c2 where "c2 = c0\<lparr>status := Finished, chain_end := Some 1240\<rparr>"
  have t2: "refresh_tick plain_env (tk_server closing_tick) (tk_fetched closing_tick)
              (tk_now closing_tick) (tk_now_saved closing_tick) ''key'' c0 db2 =
            Some (c2, saveChain c2 db2, False)"
    by (simp add: refresh_tick_def chain_gone_def session_requests c0_end c2_def Let_def)
  have g3: "getChain (saveChain c2 db2) 7 = Some c2"
    by (simp add: getChain_saveChain c2_def c0_id)
  have one: "dashboard_session plain_env opening_sync [running_tick] empty_db = Some db2"
    by (simp add: dashboard_session_def s0 c0_status session_requests(4) t1)
  have two: "dashboard_session plain_env opening_sync [running_tick, closing_tick] empty_db =
               Some (saveChain c2 db2)"
    by (simp add: dashboard_session_def s0 c0_status session_requests(4) t1 t2)
  have c2_cons: "consumption c2 = consumption c0" and c2_ids: "processedNewsIds c2 = processedNewsIds c0"
    by (simp_all add: c2_def)
  show ?thesis
    by (simp add: one two stored_consumption_def stored_processed_def g2 g3 c1_A c1_B c1_ids
        c2_cons c2_ids c0_cons c0_ids lookup_update)
qed

section \<open>The aggregator as a fold of events\<close>

lemma aggregate_snoc: "aggregate (evs @ [e]) = apply_event e (aggregate evs)"
  by (simp add: aggregate_def)

lemma use_names_append: "use_names k (evs @ evs') = use_names k evs @ use_names k evs'"
  by (induction k evs rule: use_names.induct) simp_all

lemma spend_names_append: "spend_names k (evs @ evs') = spend_names k evs @ spend_names k evs'"
  by (induction k evs rule: spend_names.induct) simp_all

lemma spend_amounts_append: "spend_amounts k (evs @ evs') = spend_amounts k evs @ spend_amounts k evs'"
  by (induction k evs rule: spend_amounts.induct) simp_all

lemma last_seen_snoc: "last_seen (ns @ [n]) = (if n \<noteq> [] then n else last_seen ns)"
  by (simp add: last_seen_def)

lemma last_seen_Nil: "last_seen [] = []"
  by (simp add: last_seen_def)

lemma spend_names_empty: "spend_names k evs = [] \<longleftrightarrow> spend_amounts k evs = []"
  by (induction k evs rule: spend_amounts.induct) simp_all

lemma aggregate_xanax:
  "DAList.lookup (fst (aggregate evs)) k =
     (if k = [] \<or> use_names k evs = [] then None
      else Some \<lparr>x_count = int (length (use_names k evs)), x_name = last_seen (use_names k evs)\<rparr>)"
proof (induction evs rule: rev_induct)
  case Nil
  show ?case by (simp add: aggregate_def)
next
  case (snoc e evs)
  obtain xs ps where a: "aggregate evs = (xs, ps)" by (cases "aggregate evs")
  with snoc have IH: "DAList.lookup xs k =
     (if k = [] \<or> use_names k evs = [] then None
      else Some \<lparr>x_count = int (length (use_names k evs)), x_name = last_seen (use_names k evs)\<rparr>)"
    by simp
  show ?case
  proof (cases e)
    case (ItemUse mid name)
    show ?thesis
    proof (cases "mid = k \<and> k \<noteq> []")
      case True
      then show ?thesis
        using IH
        by (simp add: aggregate_snoc a ItemUse use_names_append addXanax_def Let_def lookup_update
            last_seen_snoc last_seen_Nil)
    next
      case False
      then show ?thesis
        using IH
        by (auto simp: aggregate_snoc a ItemUse use_names_append addXanax_def Let_def lookup_update)
    qed
  next
    case (CurrencySpend mid amount name)
    then show ?thesis
      using IH by (simp add: aggregate_snoc a use_names_append)
  qed
qed

lemma aggregate_points:
  "DAList.lookup (snd (aggregate evs)) k =
     (if k = [] \<or> spend_amounts k evs = [] then None
      else Some \<lparr>p_amount = sum_list (spend_amounts k evs), p_name = last_seen (spend_names k evs)\<rparr>)"
proof (induction evs rule: rev_induct)
  case Nil
  show ?case by (simp add: aggregate_def)
next
  case (snoc e evs)
  obtain xs ps where a: "aggregate evs = (xs, ps)" by (cases "aggregate evs")
  with snoc have IH: "DAList.lookup ps k =
     (if k = [] \<or> spend_amounts k evs = [] then None
      else Some \<lparr>p_amount = sum_list (spend_amounts k evs), p_name = last_seen (spend_names k evs)\<rparr>)"
    by simp
  show ?case
  proof (cases e)
    case (ItemUse mid name)
    then show ?thesis
      using IH by (simp add: aggregate_snoc a spend_amounts_append spend_names_append)
  next
    case (CurrencySpend mid amount name)
    show ?thesis
    proof (cases "mid = k \<and> k \<noteq> [] \<and> amount \<noteq> 0")
      case True
      have "spend_amounts k evs = [] \<Longrightarrow> last_seen (spend_names k evs) = []"
        using spend_names_empty [of k evs] by (simp add: last_seen_Nil)
      with True show ?thesis
        using IH
        by (simp add: aggregate_snoc a CurrencySpend spend_amounts_append spend_names_append
            addPoints_def Let_def lookup_update last_seen_snoc last_seen_Nil)
    next
      case False
      then show ?thesis
        using IH
        by (auto simp: aggregate_snoc a CurrencySpend spend_amounts_append spend_names_append
            addPoints_def Let_def lookup_update)
    qed
  qed
qed

lemma use_names_mset: "mset (use_names k evs) = (\<Sum>e\<in>#mset evs. mset (use_names k [e]))"
  by (induction k evs rule: use_names.induct) simp_all

lemma spend_amounts_mset: "mset (spend_amounts k evs) = (\<Sum>e\<in>#mset evs. mset (spend_amounts k [e]))"
  by (induction k evs rule: spend_amounts.induct) simp_all

lemma perm_use_names:
  assumes "mset evs = mset evs'"
  shows "length (use_names k evs) = length (use_names k evs')"
proof -
  have "mset (use_names k evs) = (\<Sum>e\<in>#mset evs. mset (use_names k [e]))"
    by (rule use_names_mset)
  also have "\<dots> = (\<Sum>e\<in>#mset evs'. mset (use_names k [e]))"
    by (simp only: assms)
  also have "\<dots> = mset (use_names k evs')"
    by (rule use_names_mset [symmetric])
  finally have "mset (use_names k evs) = mset (use_names k evs')" .
  then show ?thesis by (rule mset_eq_length)
qed

lemma perm_spend_amounts:
  assumes "mset evs = mset evs'"
  shows "sum_list (spend_amounts k evs) = sum_list (spend_amounts k evs')"
    and "length (spend_amounts k evs) = length (spend_amounts k evs')"
proof -
  have "mset (spend_amounts k evs) = (\<Sum>e\<in>#mset evs. mset (spend_amounts k [e]))"
    by (rule spend_amounts_mset)
  also have "\<dots> = (\<Sum>e\<in>#mset evs'. mset (spend_amounts k [e]))"
    by (simp only: assms)
  also have "\<dots> = mset (spend_amounts k evs')"
    by (rule spend_amounts_mset [symmetric])
  finally have m: "mset (spend_amounts k evs) = mset (spend_amounts k evs')" .
  then have "sum_mset (mset (spend_amounts k evs)) = sum_mset (mset (spend_amounts k evs'))"
    by simp
  then show "sum_list (spend_amounts k evs) = sum_list (spend_amounts k evs')"
    by (simp add: sum_mset_sum_list)
  from m show "length (spend_amounts k evs) = length (spend_amounts k evs')"
    by (rule mset_eq_length)
qed

lemma spend_names_mset: "mset (spend_names k evs) = (\<Sum>e\<in>#mset evs. mset (spend_names k [e]))"
  by (induction k evs rule: spend_names.induct) simp_all

lemma perm_use_names_set:
  assumes "mset evs = mset evs'"
  shows "set (use_names k evs) = set (use_names k evs')"
proof -
  have "mset (use_names k evs) = (\<Sum>e\<in>#mset evs. mset (use_names k [e]))"
    by (rule use_names_mset)
  also have "\<dots> = (\<Sum>e\<in>#mset evs'. mset (use_names k [e]))"
    by (simp only: assms)
  also have "\<dots> = mset (use_names k evs')"
    by (rule use_names_mset [symmetric])
  finally show ?thesis by (rule mset_eq_setD)
qed

lemma perm_spend_names_set:
  assumes "mset evs = mset evs'"
  shows "set (spend_names k evs) = set (spend_names k evs')"
proof -
  have "mset (spend_names k evs) = (\<Sum>e\<in>#mset evs. mset (spend_names k [e]))"
    by (rule spend_names_mset)
  also have "\<dots> = (\<Sum>e\<in>#mset evs'. mset (spend_names k [e]))"
    by (simp only: assms)
  also have "\<dots> = mset (spend_names k evs')"
    by (rule spend_names_mset [symmetric])
  finally show ?thesis by (rule mset_eq_setD)
qed

lemma last_seen_same:
  "ns \<noteq> [] \<Longrightarrow> list_all (\<lambda>n. n = nm) ns \<Longrightarrow> last_seen ns = nm"
proof (induction ns rule: rev_induct)
  case Nil
  then show ?case by simp
next
  case (snoc n ns)
  show ?case
  proof (cases "ns = []")
    case True
    with snoc.prems show ?thesis by (simp add: last_seen_def)
  next
    case False
    with snoc have "last_seen ns = nm" and "n = nm" by simp_all
    then show ?thesis by (simp add: last_seen_snoc)
  qed
qed

text \<open>
  Claim C9, as amended. For every list of aggregator calls and every permutation of
  it, each of the two objects has the same keys, with the same item-use count and the
  same currency total under each key: the fold only adds. Names are kept per object.
  The name of an actor's item-use entry is the last name that is not empty among that
  actor's item-use calls, in list order (the empty string when all are empty); the
  name of an actor's currency entry is the same over that actor's currency calls of
  non-zero amount. The name of an entry is the same for the two orders whenever all
  the calls that wrote it carry the same name; otherwise it can depend on the order.
\<close>

theorem aggregate_order_insensitive:
  assumes "mset evs = mset evs'"
  shows "map_option x_count (DAList.lookup (fst (aggregate evs)) actor) =
           map_option x_count (DAList.lookup (fst (aggregate evs')) actor)
       \<and> map_option p_amount (DAList.lookup (snd (aggregate evs)) actor) =
           map_option p_amount (DAList.lookup (snd (aggregate evs')) actor)
       \<and> map_option x_name (DAList.lookup (fst (aggregate evs)) actor) =
           (if actor = [] \<or> use_names actor evs = [] then None
            else Some (last_seen (use_names actor evs)))
       \<and> map_option p_name (DAList.lookup (snd (aggregate evs)) actor) =
           (if actor = [] \<or> spend_names actor evs = [] then None
            else Some (last_seen (spend_names actor evs)))
       \<and> (list_all (\<lambda>n. n = nm) (use_names actor evs) \<longrightarrow>
            map_option x_name (DAList.lookup (fst (aggregate evs)) actor) =
            map_option x_name (DAList.lookup (fst (aggregate evs')) actor))
       \<and> (list_all (\<lambda>n. n = nm) (spend_names actor evs) \<longrightarrow>
            map_option p_name (DAList.lookup (snd (aggregate evs)) actor) =
            map_option p_name (DAList.lookup (snd (aggregate evs')) actor))"
proof -
  have 1: "(use_names actor evs = []) = (use_names actor evs' = [])"
    using perm_use_names [OF assms, of actor] by (metis length_0_conv)
  have 2: "(spend_amounts actor evs = []) = (spend_amounts actor evs' = [])"
    using perm_spend_amounts(2) [OF assms, of actor] by (metis length_0_conv)
  have first: "map_option x_count (DAList.lookup (fst (aggregate evs)) actor) =
           map_option x_count (DAList.lookup (fst (aggregate evs')) actor)
       \<and> map_option p_amount (DAList.lookup (snd (aggregate evs)) actor) =
           map_option p_amount (DAList.lookup (snd (aggregate evs')) actor)
       \<and> map_option x_name (DAList.lookup (fst (aggregate evs)) actor) =
           (if actor = [] \<or> use_names actor evs = [] then None
            else Some (last_seen (use_names actor evs)))
       \<and> map_option p_name (DAList.lookup (snd (aggregate evs)) actor) =
           (if actor = [] \<or> spend_names actor evs = [] then None
            else Some (last_seen (spend_names actor evs)))"
    using 1 2 perm_use_names [OF assms, of actor] perm_spend_amounts(1) [OF assms, of actor]
    by (simp add: aggregate_xanax aggregate_points spend_names_empty)
  have x: "map_option x_name (DAList.lookup (fst (aggregate evs)) actor) =
           map_option x_name (DAList.lookup (fst (aggregate evs')) actor)"
    if same: "list_all (\<lambda>n. n = nm) (use_names actor evs)"
  proof (cases "actor = [] \<or> use_names actor evs = []")
    case True
    with 1 show ?thesis by (auto simp: aggregate_xanax)
  next
    case False
    with 1 have ne: "use_names actor evs \<noteq> []" "use_names actor evs' \<noteq> []" by simp_all
    from same have "list_all (\<lambda>n. n = nm) (use_names actor evs')"
      using perm_use_names_set [OF assms, of actor] by (simp add: list_all_iff)
    with same ne have "last_seen (use_names actor evs) = nm" "last_seen (use_names actor evs') = nm"
      by (simp_all add: last_seen_same)
    with False ne show ?thesis by (simp add: aggregate_xanax)
  qed
  have 3: "(spend_names actor evs = []) = (spend_names actor evs' = [])"
    using 2 by (simp add: spend_names_empty)
  have p: "map_option p_name (DAList.lookup (snd (aggregate evs)) actor) =
           map_option p_name (DAList.lookup (snd (aggregate evs')) actor)"
    if same: "list_all (\<lambda>n. n = nm) (spend_names actor evs)"
  proof (cases "actor = [] \<or> spend_names actor evs = []")
    case True
    with 3 show ?thesis by (auto simp: aggregate_points spend_names_empty [symmetric])
  next
    case False
    with 3 have ne: "spend_names actor evs \<noteq> []" "spend_names actor evs' \<noteq> []" by simp_all
    from same have "list_all (\<lambda>n. n = nm) (spend_names actor evs')"
      using perm_spend_names_set [OF assms, of actor] by (simp add: list_all_iff)
    with same ne have "last_seen (spend_names actor evs) = nm" "last_seen (spend_names actor evs') = nm"
      by (simp_all add: last_seen_same)
    with False ne show ?thesis by (simp add: aggregate_points spend_names_empty [symmetric])
  qed
  from first x p show ?thesis by blast
qed

lemma fold_spend_events:
  "fold apply_event (map (\<lambda>ds. CurrencySpend mid (parseInt ds) name) dss) (xs, ps) =
     (xs, fold (\<lambda>ds. addPoints mid (parseInt ds) name) dss ps)"
  by (induction dss arbitrary: ps) simp_all

lemma process_item_events:
  assumes "\<not> js_lt (to_number env (item_ts item)) chainStart"
    and "\<not> js_lt chainEnd (to_number env (item_ts item))"
    and "item_key env item \<notin> set (ex_processed st)"
  shows "(ex_xanax (process_item env chainStart chainEnd item st),
          ex_points (process_item env chainStart chainEnd item st)) =
         fold apply_event (item_events (item_message item)) (ex_xanax st, ex_points st)"
proof (cases "extractMemberIdAndName (item_message item)")
  case None
  then show ?thesis
    by (simp add: process_item_fresh [OF assms] item_events_def)
next
  case (Some m)
  then show ?thesis
    by (simp add: process_item_fresh [OF assms] item_events_def fold_spend_events
        del: points_matches.simps)
qed

lemma renamed_actor_messages:
  "item_events ''<a href=\"profiles.php?XID=1\">A</a> used one of the faction's Xanax items'' =
     [ItemUse ''1'' ''A'']"
  "item_events ''<a href=\"profiles.php?XID=1\">B</a> used one of the faction's Xanax items'' =
     [ItemUse ''1'' ''B'']"
  by code_simp+

text \<open>
  Counterexample to claim C9 as stated: the names depend on the order. Two messages
  link the same profile id under two names; the aggregator keeps the name of
  whichever comes last, so the two orders of the same two events give different
  entries.
\<close>

theorem aggregate_names_counterexample:
  "mset [ItemUse ''1'' ''A'', ItemUse ''1'' ''B''] = mset [ItemUse ''1'' ''B'', ItemUse ''1'' ''A'']
   \<and> DAList.lookup (fst (aggregate [ItemUse ''1'' ''A'', ItemUse ''1'' ''B''])) ''1'' =
       Some \<lparr>x_count = 2, x_name = ''B''\<rparr>
   \<and> DAList.lookup (fst (aggregate [ItemUse ''1'' ''B'', ItemUse ''1'' ''A''])) ''1'' =
       Some \<lparr>x_count = 2, x_name = ''A''\<rparr>
   \<and> item_events ''<a href=\"profiles.php?XID=1\">A</a> used one of the faction's Xanax items'' =
       [ItemUse ''1'' ''A'']
   \<and> item_events ''<a href=\"profiles.php?XID=1\">B</a> used one of the faction's Xanax items'' =
       [ItemUse ''1'' ''B'']"
  by (simp add: renamed_actor_messages aggregate_xanax last_seen_def)

theorem aggregate_order_insensitive_witness:
  "map_option x_count (DAList.lookup (fst (aggregate
       [ItemUse ''1'' ''A'', CurrencySpend ''1'' 100 ''A'', ItemUse ''1'' ''B'', CurrencySpend ''1'' 50 []])) ''1'') = Some 2
   \<and> map_option x_count (DAList.lookup (fst (aggregate
       [CurrencySpend ''1'' 50 [], ItemUse ''1'' ''B'', CurrencySpend ''1'' 100 ''A'', ItemUse ''1'' ''A''])) ''1'') = Some 2
   \<and> map_option p_amount (DAList.lookup (snd (aggregate
       [ItemUse ''1'' ''A'', CurrencySpend ''1'' 100 ''A'', ItemUse ''1'' ''B'', CurrencySpend ''1'' 50 []])) ''1'') = Some 150
   \<and> map_option p_amount (DAList.lookup (snd (aggregate
       [CurrencySpend ''1'' 50 [], ItemUse ''1'' ''B'', CurrencySpend ''1'' 100 ''A'', ItemUse ''1'' ''A''])) ''1'') = Some 150
   \<and> map_option x_name (DAList.lookup (fst (aggregate
       [ItemUse ''1'' ''A'', CurrencySpend ''1'' 100 ''A'', ItemUse ''1'' ''B'', CurrencySpend ''1'' 50 []])) ''1'') = Some ''B''
   \<and> map_option p_name (DAList.lookup (snd (aggregate
       [ItemUse ''1'' ''A'', CurrencySpend ''1'' 100 ''A'', ItemUse ''1'' ''B'', CurrencySpend ''1'' 50 []])) ''1'') = Some ''A''
   \<and> map_option x_name (DAList.lookup (fst (aggregate
       [ItemUse ''2'' ''C'', CurrencySpend ''2'' 7 ''C'', ItemUse ''1'' ''A'', ItemUse ''2'' ''C''])) ''2'') = Some ''C''
   \<and> map_option x_name (DAList.lookup (fst (aggregate
       [ItemUse ''2'' ''C'', ItemUse ''1'' ''A'', ItemUse ''2'' ''C'', CurrencySpend ''2'' 7 ''C''])) ''2'') = Some ''C''
   \<and> map_option p_name (DAList.lookup (snd (aggregate
       [ItemUse ''2'' ''C'', CurrencySpend ''2'' 7 ''C'', ItemUse ''1'' ''A'', ItemUse ''2'' ''C''])) ''2'') = Some ''C''
   \<and> map_option p_name (DAList.lookup (snd (aggregate
       [ItemUse ''2'' ''C'', ItemUse ''1'' ''A'', ItemUse ''2'' ''C'', CurrencySpend ''2'' 7 ''C''])) ''2'') = Some ''C''"
proof -
  have m: "mset [ItemUse ''1'' ''A'', CurrencySpend ''1'' 100 ''A'', ItemUse ''1'' ''B'', CurrencySpend ''1'' 50 []] =
           mset [CurrencySpend ''1'' 50 [], ItemUse ''1'' ''B'', CurrencySpend ''1'' 100 ''A'', ItemUse ''1'' ''A'']"
    by simp
  have x: "DAList.lookup (fst (aggregate
       [ItemUse ''1'' ''A'', CurrencySpend ''1'' 100 ''A'', ItemUse ''1'' ''B'', CurrencySpend ''1'' 50 []])) ''1'' =
       Some \<lparr>x_count = 2, x_name = ''B''\<rparr>"
    by (simp add: aggregate_xanax last_seen_def)
  have p: "DAList.lookup (snd (aggregate
       [ItemUse ''1'' ''A'', CurrencySpend ''1'' 100 ''A'', ItemUse ''1'' ''B'', CurrencySpend ''1'' 50 []])) ''1'' =
       Some \<lparr>p_amount = 150, p_name = ''A''\<rparr>"
    by (simp add: aggregate_points last_seen_def)
  from aggregate_order_insensitive [OF m, of "''1''" "''A''"] x p
  have a: "map_option x_count (DAList.lookup (fst (aggregate
       [CurrencySpend ''1'' 50 [], ItemUse ''1'' ''B'', CurrencySpend ''1'' 100 ''A'', ItemUse ''1'' ''A''])) ''1'') = Some 2
     \<and> map_option p_amount (DAList.lookup (snd (aggregate
       [CurrencySpend ''1'' 50 [], ItemUse ''1'' ''B'', CurrencySpend ''1'' 100 ''A'', ItemUse ''1'' ''A''])) ''1'') = Some 150"
    by simp
  have m2: "mset [ItemUse ''2'' ''C'', CurrencySpend ''2'' 7 ''C'', ItemUse ''1'' ''A'', ItemUse ''2'' ''C''] =
            mset [ItemUse ''2'' ''C'', ItemUse ''1'' ''A'', ItemUse ''2'' ''C'', CurrencySpend ''2'' 7 ''C'']"
    by simp
  have x2: "map_option x_name (DAList.lookup (fst (aggregate
       [ItemUse ''2'' ''C'', CurrencySpend ''2'' 7 ''C'', ItemUse ''1'' ''A'', ItemUse ''2'' ''C''])) ''2'') = Some ''C''"
    by (simp add: aggregate_xanax last_seen_def)
  have p2: "map_option p_name (DAList.lookup (snd (aggregate
       [ItemUse ''2'' ''C'', CurrencySpend ''2'' 7 ''C'', ItemUse ''1'' ''A'', ItemUse ''2'' ''C''])) ''2'') = Some ''C''"
    by (simp add: aggregate_points last_seen_def)
  from aggregate_order_insensitive [OF m2, of "''2''" "''C''"] x2 p2
  have b: "map_option x_name (DAList.lookup (fst (aggregate
       [ItemUse ''2'' ''C'', ItemUse ''1'' ''A'', ItemUse ''2'' ''C'', CurrencySpend ''2'' 7 ''C''])) ''2'') = Some ''C''
     \<and> map_option p_name (DAList.lookup (snd (aggregate
       [ItemUse ''2'' ''C'', ItemUse ''1'' ''A'', ItemUse ''2'' ''C'', CurrencySpend ''2'' 7 ''C''])) ''2'') = Some ''C''"
    by auto
  from x p a b x2 p2 show ?thesis by simp
qed

section \<open>Partiality of the parser\<close>

lemma profile_link_at_id: "profile_link_at s = Some (g1, g2) \<Longrightarrow> g1 \<noteq> []"
  by (auto simp: profile_link_at_def split: option.splits if_splits)

lemma profile_link_match_id: "profile_link_match s = Some (g1, g2) \<Longrightarrow> g1 \<noteq> []"
proof (induction s)
  case Nil
  then show ?case by simp
next
  case (Cons c cs)
  show ?case
  proof (cases "profile_link_at (c # cs)")
    case None
    with Cons show ?thesis by simp
  next
    case (Some m)
    with Cons.prems have "profile_link_at (c # cs) = Some (g1, g2)" by simp
    then show ?thesis by (rule profile_link_at_id)
  qed
qed

lemma first_word_nonempty:
  "(case filter (\<lambda>w. w \<noteq> []) ws of [] \<Rightarrow> ''Unknown'' | w # rest \<Rightarrow> w) \<noteq> []"
proof (cases "filter (\<lambda>w. w \<noteq> []) ws")
  case Nil
  then show ?thesis by simp
next
  case (Cons w rest)
  then have "w \<in> set (filter (\<lambda>w. w \<noteq> []) ws)" by simp
  then have "w \<noteq> []" by simp
  with Cons show ?thesis by simp
qed

lemma extractMemberName_fallback:
  "\<not> 0 < indexOf '' used '' txt \<Longrightarrow> extractMemberName txt \<noteq> []"
  unfolding extractMemberName_def Let_def
  by (simp add: first_word_nonempty del: indexOf.simps split_ws.simps replace_tags.simps)

lemma extractMemberName_empty_iff:
  "extractMemberName txt = [] \<longleftrightarrow>
     (0 < indexOf '' used '' txt \<and>
      trim (replace_tags [] (take (nat (indexOf '' used '' txt)) txt)) = [])"
proof (cases "0 < indexOf '' used '' txt")
  case True
  then show ?thesis by (simp add: extractMemberName_def Let_def del: indexOf.simps)
next
  case False
  then show ?thesis using extractMemberName_fallback by simp
qed

lemma extractMemberIdAndName_None_iff:
  "extractMemberIdAndName txt = None \<longleftrightarrow>
     (profile_link_match txt = None \<and> extractMemberName txt = [])"
  by (auto simp: extractMemberIdAndName_def Let_def split: option.splits)

lemma extractMemberIdAndName_id:
  "extractMemberIdAndName txt = Some m \<Longrightarrow> member_id m \<noteq> []"
  by (auto simp: extractMemberIdAndName_def Let_def split: option.splits if_splits
      dest: profile_link_match_id)

lemma process_item_unattributed:
  assumes "\<not> js_lt (to_number env (item_ts item)) chainStart"
    and "\<not> js_lt chainEnd (to_number env (item_ts item))"
    and "item_key env item \<notin> set (ex_processed st)"
    and "extractMemberIdAndName (item_message item) = None"
  shows "process_item env chainStart chainEnd item st =
           st\<lparr>ex_processed := ex_processed st @ [item_key env item]\<rparr>"
  by (simp add: process_item_fresh [OF assms(1-3)] assms(4))

text \<open>
  Claim C10, as amended. \<^verbatim>\<open>extractMemberIdAndName\<close> is not total. A result it returns
  has a non-empty actor id; it returns \<^verbatim>\<open>null\<close> exactly when the text has no profile
  link and \<^verbatim>\<open>extractMemberName\<close> returns the empty string, and that happens exactly
  when \<^verbatim>\<open>" used "\<close> first occurs at a positive index and the text before it is empty
  once the markup is removed and it is trimmed (otherwise the name is the first
  token, or \<^verbatim>\<open>'Unknown'\<close>). An item that is in range and new is always marked as
  processed; when no actor could be extracted it is skipped, and the two objects
  stay as they were.
\<close>

theorem parser_partial:
  "(extractMemberIdAndName msg = Some m \<longrightarrow> member_id m \<noteq> [])
   \<and> (extractMemberIdAndName msg = None \<longleftrightarrow>
        (profile_link_match msg = None \<and> extractMemberName msg = []))
   \<and> (extractMemberName msg = [] \<longleftrightarrow>
        (0 < indexOf '' used '' msg \<and>
         trim (replace_tags [] (take (nat (indexOf '' used '' msg)) msg)) = []))
   \<and> (\<not> js_lt (to_number env (item_ts item)) chainStart
        \<and> \<not> js_lt chainEnd (to_number env (item_ts item))
        \<and> item_key env item \<notin> set (ex_processed st) \<longrightarrow>
        item_key env item \<in> set (ex_processed (process_item env chainStart chainEnd item st))
        \<and> (extractMemberIdAndName (item_message item) = None \<longrightarrow>
             ex_xanax (process_item env chainStart chainEnd item st) = ex_xanax st
           \<and> ex_points (process_item env chainStart chainEnd item st) = ex_points st))"
proof (intro conjI impI)
  assume "extractMemberIdAndName msg = Some m"
  then show "member_id m \<noteq> []" by (rule extractMemberIdAndName_id)
next
  show "extractMemberIdAndName msg = None \<longleftrightarrow>
        (profile_link_match msg = None \<and> extractMemberName msg = [])"
    by (rule extractMemberIdAndName_None_iff)
next
  show "extractMemberName msg = [] \<longleftrightarrow>
        (0 < indexOf '' used '' msg \<and>
         trim (replace_tags [] (take (nat (indexOf '' used '' msg)) msg)) = [])"
    by (rule extractMemberName_empty_iff)
next
  assume "\<not> js_lt (to_number env (item_ts item)) chainStart
        \<and> \<not> js_lt chainEnd (to_number env (item_ts item))
        \<and> item_key env item \<notin> set (ex_processed st)"
  then show "item_key env item \<in> set (ex_processed (process_item env chainStart chainEnd item st))"
    by (simp add: process_item_processed)
next
  assume a: "\<not> js_lt (to_number env (item_ts item)) chainStart
        \<and> \<not> js_lt chainEnd (to_number env (item_ts item))
        \<and> item_key env item \<notin> set (ex_processed st)"
    and n: "extractMemberIdAndName (item_message item) = None"
  from a n have "process_item env chainStart chainEnd item st =
           st\<lparr>ex_processed := ex_processed st @ [item_key env item]\<rparr>"
    by (intro process_item_unattributed) simp_all
  then show "ex_xanax (process_item env chainStart chainEnd item st) = ex_xanax st"
    and "ex_points (process_item env chainStart chainEnd item st) = ex_points st"
    by simp_all
qed

lemma markup_only_message:
  "extractMemberName ''<b></b> used one of the faction's Xanax items'' = []"
  "extractMemberIdAndName ''<b></b> used one of the faction's Xanax items'' = None"
  "js_includes ''<b></b> used one of the faction's Xanax items'' XANAX_PHRASE"
  "profile_link_match ''<b></b> used one of the faction's Xanax items'' = None"
  "indexOf '' used '' ''<b></b> used one of the faction's Xanax items'' = 7"
  "extractMemberName ''  used 5 faction points'' = []"
  "extractMemberIdAndName ''  used 5 faction points'' = None"
  by code_simp+

text \<open>
  Counterexample to claim C10 as stated: for a message whose text before \<^verbatim>\<open>" used "\<close>
  is markup only (or white space only) \<^verbatim>\<open>extractMemberName\<close> returns the empty string
  and \<^verbatim>\<open>extractMemberIdAndName\<close> returns \<^verbatim>\<open>null\<close>; the item is marked as processed and
  its item use is attributed to nobody.
\<close>

theorem parser_total_counterexample:
  "extractMemberName ''<b></b> used one of the faction's Xanax items'' = []
   \<and> extractMemberIdAndName ''<b></b> used one of the faction's Xanax items'' = None
   \<and> js_includes ''<b></b> used one of the faction's Xanax items'' XANAX_PHRASE
   \<and> extractConsumption plain_env
        [feed_item 50 ''n1'' ''<b></b> used one of the faction's Xanax items''] (Some 0) (Some 100) [] =
       \<lparr>ex_xanax = DAList.empty, ex_points = DAList.empty, ex_processed = [JStr ''n1'']\<rparr>
   \<and> extractMemberName ''  used 5 faction points'' = []
   \<and> extractMemberIdAndName ''  used 5 faction points'' = None"
  by (simp add: markup_only_message extractConsumption_def process_item_fresh feed_item_simps
      js_lt_def del: points_matches.simps)

theorem parser_partial_witness:
  "extractMemberIdAndName ''AJMC went to the hospital'' =
     Some \<lparr>member_id = ''AJMC'', member_name = ''AJMC''\<rparr>
   \<and> member_id \<lparr>member_id = ''AJMC'', member_name = ''AJMC''\<rparr> \<noteq> []
   \<and> extractMemberIdAndName ''<b></b> used one of the faction's Xanax items'' = None
   \<and> extractMemberName ''<b></b> used one of the faction's Xanax items'' = []
   \<and> 0 < indexOf '' used '' ''<b></b> used one of the faction's Xanax items''
   \<and> JStr ''n1'' \<in> set (ex_processed (process_item plain_env (Some 0) (Some 100)
         (feed_item 50 ''n1'' ''<b></b> used one of the faction's Xanax items'')
         \<lparr>ex_xanax = DAList.empty, ex_points = DAList.empty, ex_processed = []\<rparr>))
   \<and> ex_xanax (process_item plain_env (Some 0) (Some 100)
         (feed_item 50 ''n1'' ''<b></b> used one of the faction's Xanax items'')
         \<lparr>ex_xanax = DAList.empty, ex_points = DAList.empty, ex_processed = []\<rparr>) = DAList.empty"
proof -
  have 1: "member_id \<lparr>member_id = ''AJMC'', member_name = ''AJMC''\<rparr> \<noteq> []"
    using parser_partial [where msg = "''AJMC went to the hospital''"
        and m = "\<lparr>member_id = ''AJMC'', member_name = ''AJMC''\<rparr>"]
      hospital_message_parse(1)
    by blast
  from parser_partial [where msg = "''<b></b> used one of the faction's Xanax items''"
      and env = plain_env and chainStart = "Some 0" and chainEnd = "Some 100"
      and item = "feed_item 50 ''n1'' ''<b></b> used one of the faction's Xanax items''"
      and st = "\<lparr>ex_xanax = DAList.empty, ex_points = DAList.empty, ex_processed = []\<rparr>"
      and m = undefined]
  have 2: "extractMemberName ''<b></b> used one of the faction's Xanax items'' = [] \<longrightarrow>
           0 < indexOf '' used '' ''<b></b> used one of the faction's Xanax items''"
    and 3: "JStr ''n1'' \<in> set (ex_processed (process_item plain_env (Some 0) (Some 100)
         (feed_item 50 ''n1'' ''<b></b> used one of the faction's Xanax items'')
         \<lparr>ex_xanax = DAList.empty, ex_points = DAList.empty, ex_processed = []\<rparr>))"
    and 4: "ex_xanax (process_item plain_env (Some 0) (Some 100)
         (feed_item 50 ''n1'' ''<b></b> used one of the faction's Xanax items'')
         \<lparr>ex_xanax = DAList.empty, ex_points = DAList.empty, ex_processed = []\<rparr>) = DAList.empty"
    by (simp_all add: feed_item_simps js_lt_def markup_only_message del: indexOf.simps)
  from 1 2 3 4 show ?thesis
    by (simp add: hospital_message_parse markup_only_message del: indexOf.simps)
qed

end
